theory Spec2Isabelle
  imports Complex_Main
begin

section \<open>The MIDI composer: data model\<close>

text \<open>
  A shallow embedding of \<^verbatim>\<open>src/midi_composer.py\<close>. Python integers are \<^typ>\<open>int\<close>.
  Times and durations (Python floats) are \<^typ>\<open>real\<close>: rounding is not modelled, and the
  only statement below that evaluates a sum of durations does so on the values
  \<open>1\<close>, \<open>0\<close> and \<open>0.5\<close>, whose partial sums are exact in binary floating point.
  Every exception the modelled code can raise is a value of \<open>error\<close>.
\<close>

datatype error =
    InvalidNoteName     \<comment> \<open>\<^verbatim>\<open>ValueError\<close> of \<^verbatim>\<open>note_name_to_midi\<close>\<close>
  | UnknownScale        \<comment> \<open>\<^verbatim>\<open>KeyError\<close> of \<^verbatim>\<open>ScaleType[scale_name]\<close>\<close>
  | MissingField        \<comment> \<open>\<^verbatim>\<open>KeyError\<close> of \<^verbatim>\<open>track_spec['progression']\<close>, \<^verbatim>\<open>track_spec['pattern']\<close>\<close>
  | IndexError          \<comment> \<open>list index out of range\<close>
  | ZeroDivisionError   \<comment> \<open>\<^verbatim>\<open>%\<close> or \<^verbatim>\<open>//\<close> by zero\<close>

datatype ScaleType =
    MAJOR | MINOR | HARMONIC_MINOR | MELODIC_MINOR | PENTATONIC_MAJOR | PENTATONIC_MINOR
  | BLUES | DORIAN | PHRYGIAN | LYDIAN | MIXOLYDIAN | LOCRIAN | WHOLE_TONE | CHROMATIC

text \<open>The member's \<^verbatim>\<open>.value\<close>: the semitone offsets of the scale.\<close>

fun scale_value :: "ScaleType \<Rightarrow> int list" where
  "scale_value ScaleType.MAJOR = [0, 2, 4, 5, 7, 9, 11]"
| "scale_value ScaleType.MINOR = [0, 2, 3, 5, 7, 8, 10]"
| "scale_value HARMONIC_MINOR = [0, 2, 3, 5, 7, 8, 11]"
| "scale_value MELODIC_MINOR = [0, 2, 3, 5, 7, 9, 11]"
| "scale_value PENTATONIC_MAJOR = [0, 2, 4, 7, 9]"
| "scale_value PENTATONIC_MINOR = [0, 3, 5, 7, 10]"
| "scale_value BLUES = [0, 3, 5, 6, 7, 10]"
| "scale_value DORIAN = [0, 2, 3, 5, 7, 9, 10]"
| "scale_value PHRYGIAN = [0, 1, 3, 5, 7, 8, 10]"
| "scale_value LYDIAN = [0, 2, 4, 6, 7, 9, 11]"
| "scale_value MIXOLYDIAN = [0, 2, 4, 5, 7, 9, 10]"
| "scale_value LOCRIAN = [0, 1, 3, 5, 6, 8, 10]"
| "scale_value WHOLE_TONE = [0, 2, 4, 6, 8, 10]"
| "scale_value CHROMATIC = [0, 1, 2, 3, 4, 5, 6, 7, 8, 9, 10, 11]"

datatype ChordQuality =
    MAJOR | MINOR | DIMINISHED | AUGMENTED | MAJOR7 | MINOR7 | DOMINANT7 | DIMINISHED7
  | HALF_DIMINISHED7 | MINOR_MAJOR7 | AUGMENTED7 | SUS2 | SUS4 | ADD9 | MAJOR6 | MINOR6

fun chord_value :: "ChordQuality \<Rightarrow> int list" where
  "chord_value ChordQuality.MAJOR = [0, 4, 7]"
| "chord_value ChordQuality.MINOR = [0, 3, 7]"
| "chord_value DIMINISHED = [0, 3, 6]"
| "chord_value AUGMENTED = [0, 4, 8]"
| "chord_value MAJOR7 = [0, 4, 7, 11]"
| "chord_value MINOR7 = [0, 3, 7, 10]"
| "chord_value DOMINANT7 = [0, 4, 7, 10]"
| "chord_value DIMINISHED7 = [0, 3, 6, 9]"
| "chord_value HALF_DIMINISHED7 = [0, 3, 6, 10]"
| "chord_value MINOR_MAJOR7 = [0, 3, 7, 11]"
| "chord_value AUGMENTED7 = [0, 4, 8, 10]"
| "chord_value SUS2 = [0, 2, 7]"
| "chord_value SUS4 = [0, 5, 7]"
| "chord_value ADD9 = [0, 4, 7, 14]"
| "chord_value MAJOR6 = [0, 4, 7, 9]"
| "chord_value MINOR6 = [0, 3, 7, 9]"

record Note =
  pitch :: int
  start_time :: real
  duration :: real
  velocity :: int

text \<open>The constructor of \<^verbatim>\<open>Note\<close> followed by its \<^verbatim>\<open>__post_init__\<close>.\<close>

definition mk_Note :: "int \<Rightarrow> real \<Rightarrow> real \<Rightarrow> int \<Rightarrow> Note" where
  "mk_Note p s d v =
     \<lparr>pitch = max 0 (min 127 p), start_time = s, duration = d, velocity = max 0 (min 127 v)\<rparr>"

text \<open>
  The builders always pass a list for \<^verbatim>\<open>notes\<close>, so the \<^verbatim>\<open>None\<close> branch of
  \<^verbatim>\<open>Track.__post_init__\<close> is never taken. The field \<^verbatim>\<open>notes\<close> is called
  \<open>track_notes\<close> here.
\<close>

record Track =
  name :: string
  channel :: int
  track_notes :: "Note list"
  program :: int

text \<open>The pitches of the notes of a track that start at a given time, in track order.\<close>

definition pitches_at :: "Track \<Rightarrow> real \<Rightarrow> int list" where
  "pitches_at track t = map pitch (filter (\<lambda>n. start_time n = t) (track_notes track))"

record MIDIComposer =
  tempo :: int
  time_signature :: "int list"
  tracks :: "Track list"

subsection \<open>Python primitives\<close>

text \<open>\<^verbatim>\<open>xs[i]\<close>: a negative index counts from the end, an index out of range raises.\<close>

definition py_index :: "'a list \<Rightarrow> int \<Rightarrow> error + 'a" where
  "py_index xs i =
     (if 0 \<le> i \<and> i < int (length xs) then Inr (xs ! nat i)
      else if i < 0 \<and> - int (length xs) \<le> i then Inr (xs ! nat (int (length xs) + i))
      else Inl IndexError)"

text \<open>\<^verbatim>\<open>range(n)\<close>, empty when \<open>n \<le> 0\<close>.\<close>

definition py_range :: "int \<Rightarrow> int list" where
  "py_range n = map int [0..<nat n]"

text \<open>\<^verbatim>\<open>xs.index(x)\<close> for an \<open>x\<close> that occurs in \<open>xs\<close>.\<close>

fun list_index :: "'a list \<Rightarrow> 'a \<Rightarrow> nat" where
  "list_index [] x = 0"
| "list_index (y # ys) x = (if y = x then 0 else Suc (list_index ys x))"

text \<open>
  A string is a list of characters with codes 0 to 255. \<^verbatim>\<open>str.strip()\<close> removes the
  white space at both ends: among these codes the blank, \<open>\t \n \v \f \r\<close>, the
  separators \<open>0x1C\<close> to \<open>0x1F\<close>, the next-line character \<open>0x85\<close> and the no-break
  space \<open>0xA0\<close>. \<^verbatim>\<open>str.upper()\<close> maps \<open>a\<close> to \<open>z\<close> to \<open>A\<close> to \<open>Z\<close>; the characters above
  127 are kept as they are, which no lookup below can tell apart from their upper case,
  since every key of the tables is made of ASCII letters and \<open>#\<close>, and no upper case of
  a character above 127 consists of the letters \<open>A\<close> to \<open>G\<close> and \<open>#\<close>.
\<close>

definition is_space :: "char \<Rightarrow> bool" where
  "is_space c = (of_char c \<in> set [32, 9, 10, 11, 12, 13, 28, 29, 30, 31, 133, 160 :: nat])"

definition strip :: "string \<Rightarrow> string" where
  "strip s = rev (dropWhile is_space (rev (dropWhile is_space s)))"

definition upper_char :: "char \<Rightarrow> char" where
  "upper_char c = (if 97 \<le> (of_char c :: nat) \<and> (of_char c :: nat) \<le> 122
                   then char_of ((of_char c :: nat) - 32) else c)"

definition upper :: "string \<Rightarrow> string" where
  "upper s = map upper_char s"

text \<open>\<^verbatim>\<open>s.replace('m', '')\<close>: every occurrence of the one-character string is removed.\<close>

definition replace_m :: "string \<Rightarrow> string" where
  "replace_m s = filter (\<lambda>c. c \<noteq> CHR ''m'') s"

subsection \<open>The composer's tables\<close>

definition INSTRUMENTS :: "(string \<times> int) list" where
  "INSTRUMENTS =
    [(''acoustic_grand_piano'', 0), (''bright_acoustic_piano'', 1),
     (''electric_grand_piano'', 2), (''electric_piano'', 4), (''rhodes'', 4),
     (''wurlitzer'', 5), (''vibraphone'', 11), (''marimba'', 12), (''xylophone'', 13),
     (''drawbar_organ'', 16), (''hammond'', 16), (''rock_organ'', 18),
     (''acoustic_guitar_nylon'', 24), (''acoustic_guitar_steel'', 25),
     (''electric_guitar_jazz'', 26), (''electric_guitar_clean'', 27),
     (''electric_guitar_muted'', 28), (''acoustic_bass'', 32),
     (''electric_bass_finger'', 33), (''electric_bass_pick'', 34),
     (''fretless_bass'', 35), (''slap_bass'', 36), (''synth_bass_1'', 38),
     (''synth_bass_2'', 39), (''violin'', 40), (''viola'', 41), (''cello'', 42),
     (''contrabass'', 43), (''string_ensemble'', 48), (''choir_aahs'', 52),
     (''voice_oohs'', 53), (''trumpet'', 56), (''trombone'', 57), (''tuba'', 58),
     (''french_horn'', 60), (''brass_section'', 61), (''soprano_sax'', 64),
     (''alto_sax'', 65), (''tenor_sax'', 66), (''baritone_sax'', 67),
     (''clarinet'', 71), (''synth_lead_square'', 80), (''synth_lead_sawtooth'', 81),
     (''synth_lead_calliope'', 82), (''synth_pad_new_age'', 88),
     (''synth_pad_warm'', 89), (''synth_pad_polysynth'', 90),
     (''synth_pad_choir'', 91), (''synth_pad_bowed'', 92),
     (''synth_pad_metallic'', 93)]"

text \<open>
  \<^verbatim>\<open>INSTRUMENTS.get(k, d)\<close>. The three literal lookups \<^verbatim>\<open>INSTRUMENTS['electric_piano']\<close>,
  \<^verbatim>\<open>INSTRUMENTS['synth_lead_sawtooth']\<close> and \<^verbatim>\<open>INSTRUMENTS['electric_bass_finger']\<close>
  hit keys of the table (values 4, 81 and 33) and are written as the same lookup with
  the table's value as default.
\<close>

definition INSTRUMENTS_get :: "string \<Rightarrow> int \<Rightarrow> int" where
  "INSTRUMENTS_get k d = (case map_of INSTRUMENTS k of Some v \<Rightarrow> v | None \<Rightarrow> d)"

definition NOTE_NAMES :: "string list" where
  "NOTE_NAMES = [''C'', ''C#'', ''D'', ''D#'', ''E'', ''F'', ''F#'', ''G'', ''G#'', ''A'', ''A#'', ''B'']"

definition flat_map :: "(string \<times> string) list" where
  "flat_map = [(''DB'', ''C#''), (''EB'', ''D#''), (''GB'', ''F#''), (''AB'', ''G#''), (''BB'', ''A#'')]"

definition DRUM_MAP :: "(string \<times> int) list" where
  "DRUM_MAP =
    [(''kick'', 36), (''snare'', 38), (''closed_hihat'', 42), (''open_hihat'', 46),
     (''crash'', 49), (''ride'', 51), (''tom_high'', 48), (''tom_mid'', 47), (''tom_low'', 45)]"

text \<open>\<^verbatim>\<open>ScaleType[scale_name]\<close>: the member of that exact name, if any.\<close>

definition ScaleType_names :: "(string \<times> ScaleType) list" where
  "ScaleType_names =
    [(''MAJOR'', ScaleType.MAJOR), (''MINOR'', ScaleType.MINOR),
     (''HARMONIC_MINOR'', HARMONIC_MINOR), (''MELODIC_MINOR'', MELODIC_MINOR),
     (''PENTATONIC_MAJOR'', PENTATONIC_MAJOR), (''PENTATONIC_MINOR'', PENTATONIC_MINOR),
     (''BLUES'', BLUES), (''DORIAN'', DORIAN), (''PHRYGIAN'', PHRYGIAN), (''LYDIAN'', LYDIAN),
     (''MIXOLYDIAN'', MIXOLYDIAN), (''LOCRIAN'', LOCRIAN), (''WHOLE_TONE'', WHOLE_TONE),
     (''CHROMATIC'', CHROMATIC)]"

definition ScaleType_getitem :: "string \<Rightarrow> ScaleType option" where
  "ScaleType_getitem scale_name = map_of ScaleType_names scale_name"

section \<open>Pitch and scale engine\<close>

definition note_name_to_midi :: "string \<Rightarrow> int \<Rightarrow> error + int" where
  "note_name_to_midi note_name octave =
     (let note_name1 = upper (strip (replace_m note_name));
          note_name2 = (case map_of flat_map note_name1 of
                          Some sharp \<Rightarrow> sharp | None \<Rightarrow> note_name1)
      in if note_name2 \<notin> set NOTE_NAMES then Inl InvalidNoteName
         else let note_index = int (list_index NOTE_NAMES note_name2);
                  midi_number = (octave + 1) * 12 + note_index
              in Inr (max 0 (min 127 midi_number)))"

text \<open>The two nested loops of \<^verbatim>\<open>get_scale_notes\<close>, appending to \<^verbatim>\<open>notes\<close>.\<close>

definition get_scale_notes :: "int \<Rightarrow> ScaleType \<Rightarrow> int \<Rightarrow> int list" where
  "get_scale_notes root' scale_type octaves =
     fold (\<lambda>octave acc.
             fold (\<lambda>interval acc'.
                     let note = root' + (octave * 12) + interval
                     in if 0 \<le> note \<and> note \<le> 127 then acc' @ [note] else acc')
                  (scale_value scale_type) acc)
          (py_range octaves) []"

section \<open>Chord engine\<close>

text \<open>
  One round of the inversion loop: \<^verbatim>\<open>intervals[0] += 12\<close>, which raises on an empty
  list, then \<^verbatim>\<open>intervals.sort()\<close>.
\<close>

fun invert_once :: "int list \<Rightarrow> error + int list" where
  "invert_once [] = Inl IndexError"
| "invert_once (x # xs) = Inr (sort ((x + 12) # xs))"

fun invert :: "nat \<Rightarrow> int list \<Rightarrow> error + int list" where
  "invert 0 intervals = Inr intervals"
| "invert (Suc k) intervals =
     (case invert_once intervals of Inl e \<Rightarrow> Inl e | Inr intervals' \<Rightarrow> invert k intervals')"

text \<open>
  Auxiliary, for the proofs about inversions: a non-empty ascending interval list that
  spans at most one octave. The inversion loop keeps this property.
\<close>

definition within_octave :: "int list \<Rightarrow> bool" where
  "within_octave xs = (xs \<noteq> [] \<and> sorted xs \<and> list_all (\<lambda>x. x \<le> hd xs + 12) xs)"

definition in_midi_range :: "int \<Rightarrow> bool" where
  "in_midi_range note = (0 \<le> note \<and> note \<le> 127)"

definition create_chord :: "int \<Rightarrow> ChordQuality \<Rightarrow> int \<Rightarrow> bool \<Rightarrow> error + int list" where
  "create_chord root' quality inversion octave_doubling =
     (case (if inversion > 0 then invert (nat inversion) (chord_value quality)
            else Inr (chord_value quality)) of
        Inl e \<Rightarrow> Inl e
      | Inr intervals \<Rightarrow>
          (let chord = map (\<lambda>interval. root' + interval) intervals;
               chord' = (if octave_doubling \<and> length chord > 0
                         then chord @ [chord ! 0 + 12] else chord)
           in Inr (filter in_midi_range chord')))"

text \<open>
  The \<^verbatim>\<open>if\<close>/\<^verbatim>\<open>elif\<close> chain of \<^verbatim>\<open>create_chord_progression\<close> that picks the chord
  quality of a degree (the specification's \<open>harmonize_degree\<close>).
\<close>

definition harmonize_degree :: "int \<Rightarrow> ScaleType \<Rightarrow> ChordQuality" where
  "harmonize_degree degree scale_type =
     (if scale_type = ScaleType.MAJOR then
        (if degree \<in> set [1, 4, 5] then ChordQuality.MAJOR
         else if degree \<in> set [2, 3, 6] then ChordQuality.MINOR
         else if degree = 7 then DIMINISHED
         else ChordQuality.MAJOR)
      else
        (if degree \<in> set [3, 6, 7] then ChordQuality.MAJOR
         else if degree \<in> set [1, 4, 5] then ChordQuality.MINOR
         else if degree = 2 then DIMINISHED
         else ChordQuality.MINOR))"

text \<open>
  \<^verbatim>\<open>scale_notes[degree - 1] if degree <= len(scale_notes) else root\<close>
\<close>

definition chord_root :: "int list \<Rightarrow> int \<Rightarrow> int \<Rightarrow> error + int" where
  "chord_root scale_notes degree root' =
     (if degree \<le> int (length scale_notes) then py_index scale_notes (degree - 1)
      else Inr root')"

section \<open>Track builders\<close>

text \<open>
  Each builder's loop carries the list \<^verbatim>\<open>notes\<close> and the cursor \<^verbatim>\<open>current_time\<close>
  and returns both, so that the cursor after the last element can be stated.

  Times and durations are real numbers here, and the cursor is added up exactly; the
  code adds binary floating-point numbers, which round and overflow. The numbered
  properties below either do not mention start times at all (pitches, durations and
  velocities of the notes, in track order), or mention them on inputs whose sums are
  exact in floating point (small integers and halves).
\<close>

text \<open>
  The chord one round of the loop of \<^verbatim>\<open>create_chord_progression\<close> builds for its
  degree: the chord root, the quality, and \<^verbatim>\<open>create_chord\<close> with its default
  arguments.
\<close>

definition degree_chord :: "int \<Rightarrow> ScaleType \<Rightarrow> int list \<Rightarrow> int \<Rightarrow> error + int list" where
  "degree_chord root' scale_type scale_notes degree =
     (case chord_root scale_notes degree root' of
        Inl e \<Rightarrow> Inl e
      | Inr cr \<Rightarrow> create_chord cr (harmonize_degree degree scale_type) 0 False)"

fun chord_progression_loop ::
  "int \<Rightarrow> ScaleType \<Rightarrow> int list \<Rightarrow> real \<Rightarrow> int list \<Rightarrow> Note list \<Rightarrow> real
   \<Rightarrow> error + (Note list \<times> real)" where
  "chord_progression_loop root' scale_type scale_notes duration_per_chord [] acc current_time =
     Inr (acc, current_time)"
| "chord_progression_loop root' scale_type scale_notes duration_per_chord (degree # rest)
     acc current_time =
     (case degree_chord root' scale_type scale_notes degree of
        Inl e \<Rightarrow> Inl e
      | Inr chord \<Rightarrow>
          chord_progression_loop root' scale_type scale_notes duration_per_chord rest
            (acc @ map (\<lambda>p. mk_Note p current_time duration_per_chord 70) chord)
            (current_time + duration_per_chord))"

definition create_chord_progression ::
  "int \<Rightarrow> ScaleType \<Rightarrow> int list \<Rightarrow> real \<Rightarrow> error + Track" where
  "create_chord_progression root' scale_type progression duration_per_chord =
     (case chord_progression_loop root' scale_type (get_scale_notes root' scale_type 3)
             duration_per_chord progression [] 0 of
        Inl e \<Rightarrow> Inl e
      | Inr (acc, current_time) \<Rightarrow>
          Inr \<lparr>name = ''Chord Progression'', channel = 0, track_notes = acc,
               program = INSTRUMENTS_get ''electric_piano'' 4\<rparr>)"

fun melody_loop ::
  "int list \<Rightarrow> (int \<times> real \<times> real) list \<Rightarrow> Note list \<Rightarrow> real
   \<Rightarrow> error + (Note list \<times> real)" where
  "melody_loop scale_notes [] acc current_time = Inr (acc, current_time)"
| "melody_loop scale_notes ((degree, dur, rest) # pattern) acc current_time =
     (if degree > 0 then
        (if length scale_notes = 0 then Inl ZeroDivisionError
         else
           (case py_index scale_notes ((degree - 1) mod int (length scale_notes)) of
              Inl e \<Rightarrow> Inl e
            | Inr p \<Rightarrow>
                melody_loop scale_notes pattern
                  (acc @ [mk_Note (p + ((degree - 1) div int (length scale_notes)) * 12)
                            current_time dur 85])
                  (current_time + (dur + rest))))
      else melody_loop scale_notes pattern acc (current_time + (dur + rest)))"

text \<open>\<^verbatim>\<open>start_octave\<close> is a parameter of \<^verbatim>\<open>create_melody\<close> that its body never reads.\<close>

definition create_melody ::
  "int \<Rightarrow> ScaleType \<Rightarrow> (int \<times> real \<times> real) list \<Rightarrow> int \<Rightarrow> error + Track" where
  "create_melody root' scale_type pattern start_octave =
     (case melody_loop (get_scale_notes root' scale_type 3) pattern [] 0 of
        Inl e \<Rightarrow> Inl e
      | Inr (acc, current_time) \<Rightarrow>
          Inr \<lparr>name = ''Melody'', channel = 1, track_notes = acc,
               program = INSTRUMENTS_get ''synth_lead_sawtooth'' 81\<rparr>)"

fun bass_loop ::
  "int list \<Rightarrow> (int \<times> real) list \<Rightarrow> Note list \<Rightarrow> real \<Rightarrow> error + (Note list \<times> real)" where
  "bass_loop bass_notes [] acc current_time = Inr (acc, current_time)"
| "bass_loop bass_notes ((degree, dur) # pattern) acc current_time =
     (if degree > 0 \<and> degree \<le> int (length bass_notes) then
        (case py_index bass_notes (degree - 1) of
           Inl e \<Rightarrow> Inl e
         | Inr p \<Rightarrow>
             bass_loop bass_notes pattern (acc @ [mk_Note p current_time dur 90])
               (current_time + dur))
      else bass_loop bass_notes pattern acc (current_time + dur))"

definition create_bass_line ::
  "int \<Rightarrow> ScaleType \<Rightarrow> (int \<times> real) list \<Rightarrow> int \<Rightarrow> error + Track" where
  "create_bass_line root' scale_type pattern octave =
     (let scale_notes = get_scale_notes root' scale_type 2;
          bass_notes = map (\<lambda>note. note - 24) (filter (\<lambda>note. note - 24 \<ge> 0) scale_notes)
      in case bass_loop bass_notes pattern [] 0 of
           Inl e \<Rightarrow> Inl e
         | Inr (acc, current_time) \<Rightarrow>
             Inr \<lparr>name = ''Bass'', channel = 2, track_notes = acc,
                  program = INSTRUMENTS_get ''electric_bass_finger'' 33\<rparr>)"

text \<open>
  The drum pattern is a dictionary, kept as the list of its items in insertion order.
  \<^verbatim>\<open>time_signature[0]\<close> is read before the loops and raises on an empty tuple.
\<close>

definition create_drum_pattern ::
  "MIDIComposer \<Rightarrow> (string \<times> real list) list \<Rightarrow> int \<Rightarrow> error + Track" where
  "create_drum_pattern self pattern measures' =
     (case py_index (time_signature self) 0 of
        Inl e \<Rightarrow> Inl e
      | Inr beats_per_measure \<Rightarrow>
          Inr \<lparr>name = ''Drums'', channel = 9,
               track_notes =
                 fold (\<lambda>measure acc.
                         fold (\<lambda>(drum, hits) acc'.
                                 case map_of DRUM_MAP drum of
                                   None \<Rightarrow> acc'
                                 | Some p \<Rightarrow>
                                     fold (\<lambda>hit_time acc''.
                                             acc'' @ [mk_Note p
                                               (real_of_int (measure * beats_per_measure) + hit_time)
                                               (1 / 10) 95])
                                          hits acc')
                              pattern acc)
                      (py_range measures') [],
               program = 0\<rparr>)"

definition add_track :: "MIDIComposer \<Rightarrow> Track \<Rightarrow> MIDIComposer" where
  "add_track self track = self\<lparr>tracks := tracks self @ [track]\<rparr>"

section \<open>Declarative composition loader\<close>

text \<open>
  The document \<^verbatim>\<open>json.loads\<close> returns, with a field \<open>None\<close> when its key is absent.
  A track descriptor is read by the branch its \<^verbatim>\<open>type\<close> selects, so it is kept as that
  branch's fields, each of the shape the builder iterates over (a descriptor with any
  other \<^verbatim>\<open>type\<close>, or none, builds no track). Documents that are not JSON, or whose
  values have other shapes, are outside the model.
\<close>

datatype track_spec =
    ChordProgressionSpec "int list option" "real option" "string option"
      \<comment> \<open>\<^verbatim>\<open>progression\<close>, \<^verbatim>\<open>duration_per_chord\<close>, \<^verbatim>\<open>instrument\<close>\<close>
  | MelodySpec "(int \<times> real \<times> real) list option" "int option" "string option"
      \<comment> \<open>\<^verbatim>\<open>pattern\<close>, \<^verbatim>\<open>octave\<close>, \<^verbatim>\<open>instrument\<close>\<close>
  | BassSpec "(int \<times> real) list option" "int option" "string option"
      \<comment> \<open>\<^verbatim>\<open>pattern\<close>, \<^verbatim>\<open>octave\<close>, \<^verbatim>\<open>instrument\<close>\<close>
  | DrumsSpec "(string \<times> real list) list option" "int option"
      \<comment> \<open>\<^verbatim>\<open>pattern\<close>, \<^verbatim>\<open>measures\<close>\<close>
  | OtherSpec

record json_data =
  data_tempo :: "int option"
  data_time_signature :: "int list option"
  data_key :: "string option"
  data_octave :: "int option"
  data_scale :: "string option"
  data_tracks :: "track_spec list option"

text \<open>\<^verbatim>\<open>d.get(key, default)\<close> on a field.\<close>

definition get_or :: "'a option \<Rightarrow> 'a \<Rightarrow> 'a" where
  "get_or field dflt = (case field of None \<Rightarrow> dflt | Some v \<Rightarrow> v)"

text \<open>\<^verbatim>\<open>if 'instrument' in track_spec: track.program = INSTRUMENTS.get(..., default)\<close>\<close>

definition set_instrument :: "string option \<Rightarrow> int \<Rightarrow> Track \<Rightarrow> Track" where
  "set_instrument instrument dflt track =
     (case instrument of
        None \<Rightarrow> track
      | Some i \<Rightarrow> track\<lparr>program := INSTRUMENTS_get i dflt\<rparr>)"

text \<open>One round of the loop over \<^verbatim>\<open>tracks\<close>: the track to add, if any.\<close>

fun build_track ::
  "MIDIComposer \<Rightarrow> int \<Rightarrow> ScaleType \<Rightarrow> track_spec \<Rightarrow> error + Track option" where
  "build_track composer root' scale_type (ChordProgressionSpec progression dpc instrument) =
     (case progression of
        None \<Rightarrow> Inl MissingField
      | Some p \<Rightarrow>
          (case create_chord_progression root' scale_type p (get_or dpc 4) of
             Inl e \<Rightarrow> Inl e
           | Inr track \<Rightarrow>
               Inr (Some (set_instrument instrument
                            (INSTRUMENTS_get ''electric_piano'' 4) track))))"
| "build_track composer root' scale_type (MelodySpec pattern octave instrument) =
     (case pattern of
        None \<Rightarrow> Inl MissingField
      | Some p \<Rightarrow>
          (case create_melody root' scale_type p (get_or octave 5) of
             Inl e \<Rightarrow> Inl e
           | Inr track \<Rightarrow>
               Inr (Some (set_instrument instrument
                            (INSTRUMENTS_get ''synth_lead_sawtooth'' 81) track))))"
| "build_track composer root' scale_type (BassSpec pattern octave instrument) =
     (case pattern of
        None \<Rightarrow> Inl MissingField
      | Some p \<Rightarrow>
          (case create_bass_line root' scale_type p (get_or octave 2) of
             Inl e \<Rightarrow> Inl e
           | Inr track \<Rightarrow>
               Inr (Some (set_instrument instrument
                            (INSTRUMENTS_get ''electric_bass_finger'' 33) track))))"
| "build_track composer root' scale_type (DrumsSpec pattern measures') =
     (case pattern of
        None \<Rightarrow> Inl MissingField
      | Some p \<Rightarrow>
          (case create_drum_pattern composer p (get_or measures' 4) of
             Inl e \<Rightarrow> Inl e
           | Inr track \<Rightarrow> Inr (Some track)))"
| "build_track composer root' scale_type OtherSpec = Inr None"

text \<open>
  A failure of the loader is the exception together with the local \<^verbatim>\<open>composer\<close> at the
  moment it is raised, so that what had been built by then can be stated. The caller of
  \<^verbatim>\<open>create_from_json\<close> sees the exception only.
\<close>

fun load_tracks ::
  "MIDIComposer \<Rightarrow> int \<Rightarrow> ScaleType \<Rightarrow> track_spec list
   \<Rightarrow> (error \<times> MIDIComposer) + MIDIComposer" where
  "load_tracks composer root' scale_type [] = Inr composer"
| "load_tracks composer root' scale_type (spec # specs) =
     (case build_track composer root' scale_type spec of
        Inl e \<Rightarrow> Inl (e, composer)
      | Inr None \<Rightarrow> load_tracks composer root' scale_type specs
      | Inr (Some track) \<Rightarrow> load_tracks (add_track composer track) root' scale_type specs)"

definition create_from_json :: "json_data \<Rightarrow> (error \<times> MIDIComposer) + MIDIComposer" where
  "create_from_json data =
     (let composer = \<lparr>tempo = get_or (data_tempo data) 120,
                       time_signature = get_or (data_time_signature data) [4, 4],
                       tracks = []\<rparr>;
          key_name = get_or (data_key data) ''C'';
          octave = get_or (data_octave data) 4
      in case note_name_to_midi key_name octave of
           Inl e \<Rightarrow> Inl (e, composer)
         | Inr root' \<Rightarrow>
             (let scale_name = get_or (data_scale data) ''MAJOR''
              in case ScaleType_getitem scale_name of
                   None \<Rightarrow> Inl (UnknownScale, composer)
                 | Some scale_type \<Rightarrow>
                     load_tracks composer root' scale_type (get_or (data_tracks data) [])))"

section \<open>Properties of note construction\<close>

text \<open>
  C5. Constructing a note never rejects a pitch or a velocity (\<open>mk_Note\<close> is total):
  both are saturated into \<open>[0,127]\<close>. Pitch 200 becomes 127, pitch -5 becomes 0,
  velocity is treated the same way, and a value already in range is kept.
\<close>

theorem note_clamped:
  "pitch (mk_Note 200 s d v) = 127
   \<and> pitch (mk_Note (- 5) s d v) = 0
   \<and> velocity (mk_Note p s d 200) = 127
   \<and> velocity (mk_Note p s d (- 5)) = 0
   \<and> 0 \<le> pitch (mk_Note p s d v) \<and> pitch (mk_Note p s d v) \<le> 127
   \<and> 0 \<le> velocity (mk_Note p s d v) \<and> velocity (mk_Note p s d v) \<le> 127
   \<and> (p < 0 \<longrightarrow> pitch (mk_Note p s d v) = 0)
   \<and> (127 < p \<longrightarrow> pitch (mk_Note p s d v) = 127)
   \<and> (0 \<le> p \<and> p \<le> 127 \<longrightarrow> pitch (mk_Note p s d v) = p)
   \<and> (v < 0 \<longrightarrow> velocity (mk_Note p s d v) = 0)
   \<and> (127 < v \<longrightarrow> velocity (mk_Note p s d v) = 127)
   \<and> (0 \<le> v \<and> v \<le> 127 \<longrightarrow> velocity (mk_Note p s d v) = v)"
  by (simp add: mk_Note_def)

theorem note_clamped_witness:
  "pitch (mk_Note 60 0 1 80) = 60 \<and> velocity (mk_Note 60 0 1 80) = 80
   \<and> pitch (mk_Note (- 1) 0 1 300) = 0 \<and> velocity (mk_Note (- 1) 0 1 300) = 127
   \<and> pitch (mk_Note 128 0 1 (- 7)) = 127 \<and> velocity (mk_Note 128 0 1 (- 7)) = 0"
  using note_clamped [of 0 1 80 60] note_clamped [of 0 1 300 "- 1"]
    note_clamped [of 0 1 "- 7" 128]
  by simp

section \<open>Properties of the pitch and scale engine\<close>

lemma normalise_Am: "upper (strip (replace_m ''Am'')) = ''A''"
  by code_simp

lemma normalise_A: "upper (strip (replace_m ''A'')) = ''A''"
  by code_simp

lemma normalise_Cm: "upper (strip (replace_m ''Cm'')) = ''C''"
  by code_simp

lemma normalise_C: "upper (strip (replace_m ''C'')) = ''C''"
  by code_simp

lemma normalise_Em: "upper (strip (replace_m ''Em'')) = ''E''"
  by code_simp

lemma normalise_E: "upper (strip (replace_m ''E'')) = ''E''"
  by code_simp

lemma replace_m_idem: "replace_m (replace_m s) = replace_m s"
  by (simp add: replace_m_def)

lemma note_name_to_midi_replace_m:
  "note_name_to_midi (replace_m nm) octave = note_name_to_midi nm octave"
  by (simp add: note_name_to_midi_def replace_m_idem)

lemma resolve_A:
  "upper (strip (replace_m nm)) = ''A''
   \<Longrightarrow> note_name_to_midi nm octave = Inr (max 0 (min 127 ((octave + 1) * 12 + 9)))"
  by (simp add: note_name_to_midi_def flat_map_def NOTE_NAMES_def Let_def)

lemma resolve_C:
  "upper (strip (replace_m nm)) = ''C''
   \<Longrightarrow> note_name_to_midi nm octave = Inr (max 0 (min 127 ((octave + 1) * 12)))"
  by (simp add: note_name_to_midi_def flat_map_def NOTE_NAMES_def Let_def)

lemma resolve_E:
  "upper (strip (replace_m nm)) = ''E''
   \<Longrightarrow> note_name_to_midi nm octave = Inr (max 0 (min 127 ((octave + 1) * 12 + 4)))"
  by (simp add: note_name_to_midi_def flat_map_def NOTE_NAMES_def Let_def)

text \<open>
  C10. Pitch resolution removes every lower-case \<open>m\<close> from the note name before the
  lookup: a name and the name without its \<open>m\<close>s resolve alike. For every octave
  \<open>Am\<close> resolves to the pitch of \<open>A\<close>, and \<open>Cm\<close> and \<open>Em\<close> are accepted as \<open>C\<close> and
  \<open>E\<close> rather than failing with \<open>InvalidNoteName\<close>.
\<close>

theorem note_name_minor_suffix:
  "note_name_to_midi nm octave = note_name_to_midi (filter (\<lambda>c. c \<noteq> CHR ''m'') nm) octave
   \<and> note_name_to_midi ''Am'' octave = note_name_to_midi ''A'' octave
   \<and> note_name_to_midi ''Am'' octave = Inr (max 0 (min 127 ((octave + 1) * 12 + 9)))
   \<and> note_name_to_midi ''Cm'' octave = note_name_to_midi ''C'' octave
   \<and> note_name_to_midi ''Cm'' octave = Inr (max 0 (min 127 ((octave + 1) * 12)))
   \<and> note_name_to_midi ''Em'' octave = note_name_to_midi ''E'' octave
   \<and> note_name_to_midi ''Em'' octave = Inr (max 0 (min 127 ((octave + 1) * 12 + 4)))"
proof -
  have "note_name_to_midi nm octave
          = note_name_to_midi (filter (\<lambda>c. c \<noteq> CHR ''m'') nm) octave"
    using note_name_to_midi_replace_m [of nm octave] by (simp add: replace_m_def)
  moreover have "note_name_to_midi ''Am'' octave = note_name_to_midi ''A'' octave"
    by (simp add: resolve_A [OF normalise_Am] resolve_A [OF normalise_A])
  moreover have "note_name_to_midi ''Cm'' octave = note_name_to_midi ''C'' octave"
    by (simp add: resolve_C [OF normalise_Cm] resolve_C [OF normalise_C])
  moreover have "note_name_to_midi ''Em'' octave = note_name_to_midi ''E'' octave"
    by (simp add: resolve_E [OF normalise_Em] resolve_E [OF normalise_E])
  ultimately show ?thesis
    by (simp add: resolve_A [OF normalise_Am] resolve_C [OF normalise_Cm]
        resolve_E [OF normalise_Em])
qed

theorem note_name_minor_suffix_witness:
  "note_name_to_midi ''Am'' 4 = Inr 69 \<and> note_name_to_midi ''A'' 4 = Inr 69
   \<and> note_name_to_midi ''Cm'' 4 = Inr 60 \<and> note_name_to_midi ''Em'' 4 = Inr 64
   \<and> note_name_to_midi ''Am'' 10 = Inr 127"
  using note_name_minor_suffix [of "''Am''" 4] note_name_minor_suffix [of "''Am''" 10]
  by auto

lemma scale_value_sorted: "sorted (scale_value st)"
  by (cases st) simp_all

lemma scale_value_bounds: "i \<in> set (scale_value st) \<Longrightarrow> 0 \<le> i \<and> i \<le> 11"
  by (cases st) auto

lemma scale_value_zero: "0 \<in> set (scale_value st)"
  by (cases st) simp_all

lemma inner_fold:
  "fold (\<lambda>interval acc'. let note = c + interval
                           in if 0 \<le> note \<and> note \<le> 127 then acc' @ [note] else acc') ivs acc
   = acc @ filter in_midi_range (map (\<lambda>interval. c + interval) ivs)"
  by (induction ivs arbitrary: acc) (simp_all add: in_midi_range_def Let_def)

lemma outer_fold: "fold (\<lambda>x acc. acc @ f x) xs acc = acc @ concat (map f xs)"
  by (induction xs arbitrary: acc) simp_all

lemma get_scale_notes_concat:
  "get_scale_notes r st octaves =
     concat (map (\<lambda>octave. filter in_midi_range
                               (map (\<lambda>interval. r + (octave * 12) + interval) (scale_value st)))
                 (py_range octaves))"
  by (simp add: get_scale_notes_def inner_fold outer_fold)

lemma sorted_map_add: "sorted xs \<Longrightarrow> sorted (map (\<lambda>i. c + i) xs)" for c :: int
  by (induction xs) auto

lemma block_sorted:
  "sorted (filter in_midi_range (map (\<lambda>interval. c + interval) (scale_value st)))"
  by (intro sorted_wrt_filter sorted_map_add scale_value_sorted)

lemma block_bounds:
  "x \<in> set (filter in_midi_range (map (\<lambda>interval. c + interval) (scale_value st)))
   \<Longrightarrow> c \<le> x \<and> x \<le> c + 11 \<and> 0 \<le> x \<and> x \<le> 127"
  using scale_value_bounds [of _ st] by (auto simp add: in_midi_range_def)

lemma blocks_sorted:
  fixes B :: "nat \<Rightarrow> int list"
  assumes "\<And>k. sorted (B k)"
    and "\<And>k y. y \<in> set (B k) \<Longrightarrow> r + 12 * int k \<le> y \<and> y < r + 12 * int (Suc k)"
  shows "sorted (concat (map B [0..<m])) \<and> (\<forall>x \<in> set (concat (map B [0..<m])). x < r + 12 * int m)"
proof (induction m)
  case 0
  show ?case by simp
next
  case (Suc m)
  have step: "concat (map B [0..<Suc m]) = concat (map B [0..<m]) @ B m"
    by simp
  have "sorted (concat (map B [0..<m]) @ B m)"
    unfolding sorted_append using Suc assms(1) [of m] assms(2) [of _ m] by fastforce
  moreover have "\<forall>x \<in> set (concat (map B [0..<m]) @ B m). x < r + 12 * int (Suc m)"
    unfolding set_append using Suc assms(2) [of _ m] by fastforce
  ultimately show ?case
    unfolding step by blast
qed

lemma get_scale_notes_sorted: "sorted (get_scale_notes r st octaves)"
proof -
  have "sorted (concat (map (\<lambda>k. filter in_midi_range
                               (map (\<lambda>interval. r + (int k * 12) + interval) (scale_value st)))
                 [0..<nat octaves]))"
  proof (rule conjunct1 [OF blocks_sorted [where r = r]])
    fix k
    show "sorted (filter in_midi_range
                   (map (\<lambda>interval. r + (int k * 12) + interval) (scale_value st)))"
      by (rule block_sorted)
  next
    fix k y
    assume "y \<in> set (filter in_midi_range
                   (map (\<lambda>interval. r + (int k * 12) + interval) (scale_value st)))"
    from block_bounds [OF this] show "r + 12 * int k \<le> y \<and> y < r + 12 * int (Suc k)"
      by simp
  qed
  then show ?thesis
    by (simp add: get_scale_notes_concat py_range_def comp_def)
qed

lemma get_scale_notes_range:
  "x \<in> set (get_scale_notes r st octaves) \<Longrightarrow> 0 \<le> x \<and> x \<le> 127"
  by (auto simp add: get_scale_notes_concat in_midi_range_def)

lemma concat_filter_length:
  "length (concat (map (\<lambda>x. filter P (map (f x) ys)) xs)) \<le> length xs * length ys"
proof (induction xs)
  case Nil
  show ?case by simp
next
  case (Cons x xs)
  then show ?case by (simp add: filter_map add_mono)
qed

lemma get_scale_notes_length:
  "0 \<le> octaves
   \<Longrightarrow> int (length (get_scale_notes r st octaves)) \<le> octaves * int (length (scale_value st))"
proof -
  assume nonneg: "0 \<le> octaves"
  have "length (get_scale_notes r st octaves) \<le> length (py_range octaves) * length (scale_value st)"
    unfolding get_scale_notes_concat by (rule concat_filter_length)
  then have "int (length (get_scale_notes r st octaves))
               \<le> int (length (py_range octaves) * length (scale_value st))"
    by (rule iffD2 [OF of_nat_le_iff])
  with nonneg show ?thesis by (simp add: py_range_def)
qed

lemma get_scale_notes_root:
  "0 \<le> r \<Longrightarrow> r \<le> 127 \<Longrightarrow> 0 < octaves \<Longrightarrow> r \<in> set (get_scale_notes r st octaves)"
proof -
  assume r: "0 \<le> r" "r \<le> 127" and pos: "0 < octaves"
  have "0 \<in> set (py_range octaves)"
    using pos by (auto simp add: py_range_def image_iff intro: bexI [of _ 0])
  moreover have "r \<in> set (filter in_midi_range
                      (map (\<lambda>interval. r + (0 * 12) + interval) (scale_value st)))"
    using r scale_value_zero [of st] by (auto simp add: in_midi_range_def image_iff)
  ultimately show ?thesis
    unfolding get_scale_notes_concat set_concat by (auto simp del: mult_zero_left)
qed

text \<open>
  C4. For every scale, every root pitch in \<open>[0,127]\<close> and every octave span \<open>\<ge> 0\<close>, the
  expansion is non-decreasing, has at most span times the number of scale offsets
  elements, and all its elements lie in \<open>[0,127]\<close>: a pitch outside the range is
  skipped, not clamped.
\<close>

theorem get_scale_notes_bounds:
  "0 \<le> root' \<and> root' \<le> 127 \<and> 0 \<le> octaves
   \<Longrightarrow> sorted (get_scale_notes root' st octaves)
       \<and> int (length (get_scale_notes root' st octaves)) \<le> octaves * int (length (scale_value st))
       \<and> (\<forall>x \<in> set (get_scale_notes root' st octaves). 0 \<le> x \<and> x \<le> 127)
       \<and> get_scale_notes root' st octaves =
           concat (map (\<lambda>octave. filter (\<lambda>note. 0 \<le> note \<and> note \<le> 127)
                                    (map (\<lambda>offset. root' + octave * 12 + offset) (scale_value st)))
                       (py_range octaves))"
proof -
  assume h: "0 \<le> root' \<and> root' \<le> 127 \<and> 0 \<le> octaves"
  have ordered: "sorted (get_scale_notes root' st octaves)"
    by (rule get_scale_notes_sorted)
  have short: "int (length (get_scale_notes root' st octaves))
                 \<le> octaves * int (length (scale_value st))"
    using h by (simp add: get_scale_notes_length)
  have ranged: "\<forall>x \<in> set (get_scale_notes root' st octaves). 0 \<le> x \<and> x \<le> 127"
    using get_scale_notes_range [of _ root' st octaves] by blast
  have skipped: "get_scale_notes root' st octaves =
           concat (map (\<lambda>octave. filter (\<lambda>note. 0 \<le> note \<and> note \<le> 127)
                                    (map (\<lambda>offset. root' + octave * 12 + offset) (scale_value st)))
                       (py_range octaves))"
    unfolding get_scale_notes_concat in_midi_range_def [abs_def] by (rule refl)
  show ?thesis
    by (intro conjI ordered short ranged skipped)
qed

lemma expand_120: "get_scale_notes 120 ScaleType.MAJOR 3 = [120, 122, 124, 125, 127]"
  by code_simp

theorem get_scale_notes_bounds_witness:
  "(0::int) \<le> 120 \<and> (120::int) \<le> 127 \<and> (0::int) \<le> 3
   \<and> get_scale_notes 120 ScaleType.MAJOR 3 = [120, 122, 124, 125, 127]
   \<and> sorted (get_scale_notes 120 ScaleType.MAJOR 3)
   \<and> int (length (get_scale_notes 120 ScaleType.MAJOR 3))
        \<le> 3 * int (length (scale_value ScaleType.MAJOR))"
proof -
  have h: "(0::int) \<le> 120 \<and> (120::int) \<le> 127 \<and> (0::int) \<le> 3"
    by simp
  note b = get_scale_notes_bounds [OF h, of ScaleType.MAJOR]
  have s: "sorted (get_scale_notes 120 ScaleType.MAJOR 3)"
    using b by (rule conjunct1)
  have l: "int (length (get_scale_notes 120 ScaleType.MAJOR 3))
             \<le> 3 * int (length (scale_value ScaleType.MAJOR))"
    using b by (rule conjunct1 [OF conjunct2])
  from h s l expand_120 show ?thesis
    by blast
qed

section \<open>Properties of the chord engine\<close>

lemma py_index_last: "xs \<noteq> [] \<Longrightarrow> py_index xs (- 1) = Inr (last xs)"
  by (cases xs rule: rev_cases) (simp_all add: py_index_def nth_append)

lemma py_index_from_end:
  "- int (length xs) \<le> i \<Longrightarrow> i < 0 \<Longrightarrow> py_index xs i = Inr (xs ! nat (int (length xs) + i))"
  by (simp add: py_index_def)

lemma py_index_below: "i < - int (length xs) \<Longrightarrow> py_index xs i = Inl IndexError"
  by (simp add: py_index_def)

lemma py_index_in_set: "py_index xs i = Inr x \<Longrightarrow> x \<in> set xs"
  by (auto simp add: py_index_def split: if_splits)

lemma sorted_le_last: "sorted xs \<Longrightarrow> y \<in> set xs \<Longrightarrow> y \<le> last xs" for xs :: "int list"
  by (induction xs) auto

lemma sorted_last_Max: "sorted xs \<Longrightarrow> xs \<noteq> [] \<Longrightarrow> last xs = Max (set xs)" for xs :: "int list"
  by (rule sym, rule Max_eqI) (auto intro: sorted_le_last)

lemma expand_60:
  "get_scale_notes 60 ScaleType.MAJOR 3 =
     [60, 62, 64, 65, 67, 69, 71, 72, 74, 76, 77, 79, 81, 83, 84, 86, 88, 89, 91, 93, 95]"
  by code_simp

text \<open>
  C1. The chord quality of a degree follows the diatonic rule: in the major scale,
  degrees 1, 4, 5 give a major triad, 2, 3, 6 a minor triad and 7 a diminished triad;
  in every other scale, degrees 3, 6, 7 give a major triad, 1, 4, 5 a minor triad and
  2 a diminished triad; any other degree gives the major triad in the major scale and
  the minor triad otherwise.
\<close>

theorem harmonize_degree_rule:
  "(d \<in> {1, 4, 5} \<longrightarrow> harmonize_degree d ScaleType.MAJOR = ChordQuality.MAJOR)
   \<and> (d \<in> {2, 3, 6} \<longrightarrow> harmonize_degree d ScaleType.MAJOR = ChordQuality.MINOR)
   \<and> (d = 7 \<longrightarrow> harmonize_degree d ScaleType.MAJOR = DIMINISHED)
   \<and> (d \<notin> {1, 2, 3, 4, 5, 6, 7} \<longrightarrow> harmonize_degree d ScaleType.MAJOR = ChordQuality.MAJOR)
   \<and> (st \<noteq> ScaleType.MAJOR \<longrightarrow>
        (d \<in> {3, 6, 7} \<longrightarrow> harmonize_degree d st = ChordQuality.MAJOR)
      \<and> (d \<in> {1, 4, 5} \<longrightarrow> harmonize_degree d st = ChordQuality.MINOR)
      \<and> (d = 2 \<longrightarrow> harmonize_degree d st = DIMINISHED)
      \<and> (d \<notin> {1, 2, 3, 4, 5, 6, 7} \<longrightarrow> harmonize_degree d st = ChordQuality.MINOR))"
  by (auto simp add: harmonize_degree_def)

theorem harmonize_degree_rule_witness:
  "harmonize_degree 1 ScaleType.MAJOR = ChordQuality.MAJOR
   \<and> harmonize_degree 6 ScaleType.MAJOR = ChordQuality.MINOR
   \<and> harmonize_degree 7 ScaleType.MAJOR = DIMINISHED
   \<and> harmonize_degree 0 ScaleType.MAJOR = ChordQuality.MAJOR
   \<and> harmonize_degree 3 DORIAN = ChordQuality.MAJOR
   \<and> harmonize_degree 5 BLUES = ChordQuality.MINOR
   \<and> harmonize_degree 2 ScaleType.MINOR = DIMINISHED
   \<and> harmonize_degree 8 CHROMATIC = ChordQuality.MINOR"
  using harmonize_degree_rule [of 1 DORIAN] harmonize_degree_rule [of 6 DORIAN]
    harmonize_degree_rule [of 7 DORIAN] harmonize_degree_rule [of 0 DORIAN]
    harmonize_degree_rule [of 3 DORIAN] harmonize_degree_rule [of 5 BLUES]
    harmonize_degree_rule [of 2 ScaleType.MINOR] harmonize_degree_rule [of 8 CHROMATIC]
  by simp

text \<open>
  Inversions. On a non-empty ascending interval list that spans at most one octave, one
  round of the inversion loop is a rotation: the lowest interval, raised by 12, becomes
  the highest. Every quality but the added ninth is such a list, and the added ninth
  becomes one after the first round.
\<close>

lemma invert_once_rotate:
  assumes "sorted (a # rest)" and "\<forall>x \<in> set rest. x \<le> a + 12"
  shows "invert_once (a # rest) = Inr (rest @ [a + 12])"
  using assms by (simp add: sorted_sort_id sorted_insort_is_snoc)

lemma within_octave_Cons:
  "within_octave (a # rest) \<Longrightarrow> sorted (a # rest) \<and> (\<forall>x \<in> set rest. x \<le> a + 12)"
  by (simp add: within_octave_def list_all_iff)

lemma within_octave_rotate:
  assumes "within_octave (a # rest)"
  shows "within_octave (rest @ [a + 12])"
proof (cases rest)
  case Nil
  then show ?thesis
    by (simp add: within_octave_def)
next
  case (Cons b more)
  with assms show ?thesis
    by (auto simp add: within_octave_def list_all_iff sorted_append)
qed

lemma within_octave_step:
  assumes "within_octave xs"
  shows "\<exists>a rest. xs = a # rest \<and> invert_once xs = Inr (rest @ [a + 12])
           \<and> within_octave (rest @ [a + 12])"
proof (cases xs)
  case Nil
  with assms show ?thesis
    by (simp add: within_octave_def)
next
  case (Cons a rest)
  with assms within_octave_Cons [of a rest] within_octave_rotate [of a rest]
    invert_once_rotate [of a rest]
  show ?thesis
    by simp
qed

lemma within_octave_invert:
  "within_octave xs \<Longrightarrow> \<exists>ys. invert k xs = Inr ys \<and> within_octave ys"
proof (induction k arbitrary: xs)
  case 0
  then show ?case
    by simp
next
  case (Suc k)
  from within_octave_step [OF Suc.prems] obtain a rest where
    step: "invert_once xs = Inr (rest @ [a + 12])" and inv: "within_octave (rest @ [a + 12])"
    by blast
  from Suc.IH [OF inv] step show ?case
    by simp
qed

lemma rotate_invert:
  "within_octave xs \<Longrightarrow> k \<le> length xs
   \<Longrightarrow> invert k xs = Inr (drop k xs @ map (\<lambda>x. x + 12) (take k xs))"
proof (induction k arbitrary: xs)
  case 0
  then show ?case
    by simp
next
  case (Suc k)
  from within_octave_step [OF Suc.prems(1)] obtain a rest where
    xs: "xs = a # rest" and step: "invert_once xs = Inr (rest @ [a + 12])"
    and inv: "within_octave (rest @ [a + 12])"
    by blast
  from Suc.prems(2) xs have k: "k \<le> length rest"
    by simp
  then have "k \<le> length (rest @ [a + 12])"
    by simp
  from Suc.IH [OF inv this] step k xs show ?case
    by simp
qed

lemma first_inversion_within_octave:
  "\<exists>ys. invert_once (chord_value q) = Inr ys \<and> within_octave ys"
  by (cases q) (simp_all add: within_octave_def)

lemma chord_value_within_octave: "q \<noteq> ADD9 \<Longrightarrow> within_octave (chord_value q)"
  by (cases q) (simp_all add: within_octave_def)

lemma chord_value_head: "\<exists>rest. chord_value q = 0 # rest"
  by (cases q) simp_all

lemma invert_positive:
  "0 < k \<Longrightarrow> \<exists>ys. invert k (chord_value q) = Inr ys \<and> within_octave ys"
proof -
  assume "0 < k"
  then obtain j where k: "k = Suc j"
    by (cases k) simp_all
  from first_inversion_within_octave [of q] obtain ys where
    step: "invert_once (chord_value q) = Inr ys" and inv: "within_octave ys"
    by blast
  from within_octave_invert [OF inv, of j] step k show ?thesis
    by simp
qed

lemma add9_inversions:
  "invert 1 (chord_value ADD9) = Inr [4, 7, 12, 14]"
  "invert 2 (chord_value ADD9) = Inr [7, 12, 14, 16]"
  "invert 3 (chord_value ADD9) = Inr [12, 14, 16, 19]"
  by code_simp+

lemma add9_formula:
  "sort (drop 1 (chord_value ADD9) @ map (\<lambda>x. x + 12) (take 1 (chord_value ADD9))) = [4, 7, 12, 14]"
  "sort (drop 2 (chord_value ADD9) @ map (\<lambda>x. x + 12) (take 2 (chord_value ADD9))) = [7, 12, 14, 16]"
  "sort (drop 3 (chord_value ADD9) @ map (\<lambda>x. x + 12) (take 3 (chord_value ADD9))) = [12, 14, 16, 19]"
  by code_simp+

lemma create_chord_inverted:
  "0 < k \<Longrightarrow> invert (nat k) (chord_value q) = Inr ys
   \<Longrightarrow> create_chord r q k d = Inr (filter in_midi_range
         (if d \<and> ys \<noteq> [] then map (\<lambda>interval. r + interval) ys @ [r + hd ys + 12]
          else map (\<lambda>interval. r + interval) ys))"
  by (cases ys) (simp_all add: create_chord_def Let_def)

lemma within_octave_voicing_sorted:
  assumes "within_octave ys"
  shows "sorted (map (\<lambda>interval. r + interval) ys @ [r + hd ys + 12])"
    and "sorted (map (\<lambda>interval. r + interval) ys)"
proof -
  from assms have s: "sorted ys" and b: "\<forall>x \<in> set ys. x \<le> hd ys + 12"
    by (simp_all add: within_octave_def list_all_iff)
  from s show "sorted (map (\<lambda>interval. r + interval) ys)"
    by (simp add: sorted_map_add)
  with b show "sorted (map (\<lambda>interval. r + interval) ys @ [r + hd ys + 12])"
    by (auto simp add: sorted_append)
qed

lemma create_chord_inverted_sorted:
  assumes "0 < k"
  shows "\<exists>ch. create_chord r q k d = Inr ch \<and> sorted ch"
proof -
  from assms have "0 < nat k"
    by simp
  from invert_positive [OF this, of q] obtain ys where
    ys: "invert (nat k) (chord_value q) = Inr ys" and inv: "within_octave ys"
    by blast
  from within_octave_voicing_sorted [OF inv, of r] create_chord_inverted [OF assms ys, of r d]
  show ?thesis
    by (simp add: sorted_wrt_filter)
qed

lemma create_chord_root_first:
  assumes "in_midi_range r"
  shows "\<exists>rest. create_chord r q 0 d = Inr (r # rest)"
proof -
  from chord_value_head [of q] obtain rest where "chord_value q = 0 # rest"
    by blast
  with assms show ?thesis
    by (simp add: create_chord_def Let_def)
qed

lemma inversion_formula:
  assumes "0 < k" and "k \<le> length (chord_value q)" and "q = ADD9 \<longrightarrow> k \<le> 3"
  shows "invert k (chord_value q)
         = Inr (sort (drop k (chord_value q) @ map (\<lambda>x. x + 12) (take k (chord_value q))))"
proof (cases "q = ADD9")
  case True
  with assms have "k = 1 \<or> k = 2 \<or> k = 3"
    by auto
  with True show ?thesis
    using add9_inversions add9_formula by auto
next
  case False
  then have inv: "within_octave (chord_value q)"
    by (rule chord_value_within_octave)
  from rotate_invert [OF inv assms(2)] have
    eq: "invert k (chord_value q)
         = Inr (drop k (chord_value q) @ map (\<lambda>x. x + 12) (take k (chord_value q)))" .
  from within_octave_invert [OF inv, of k] eq have
    "sorted (drop k (chord_value q) @ map (\<lambda>x. x + 12) (take k (chord_value q)))"
    by (simp add: within_octave_def)
  with eq show ?thesis
    by (simp add: sorted_sort_id)
qed

lemma raised_tone_in_inversion:
  "t \<in> set (take k v) \<Longrightarrow> t + 12 \<in> set (sort (drop k v @ map (\<lambda>x. x + 12) (take k v)))"
  for t :: int
  by simp

lemma create_chord_raised_tones:
  assumes "0 < k" and "k \<le> int (length (chord_value q))" and "q = ADD9 \<longrightarrow> k \<le> 3"
  shows "\<exists>ch. create_chord r q k d = Inr ch
           \<and> (\<forall>t \<in> set (take (nat k) (chord_value q)).
                 in_midi_range (r + t + 12) \<longrightarrow> r + t + 12 \<in> set ch)"
proof -
  from assms have "0 < nat k" and "nat k \<le> length (chord_value q)"
    and "q = ADD9 \<longrightarrow> nat k \<le> 3"
    by auto
  then have ys: "invert (nat k) (chord_value q)
      = Inr (sort (drop (nat k) (chord_value q)
                   @ map (\<lambda>x. x + 12) (take (nat k) (chord_value q))))"
    by (rule inversion_formula)
  have "\<forall>t \<in> set (take (nat k) (chord_value q)).
          in_midi_range (r + t + 12) \<longrightarrow>
          r + t + 12 \<in> set (filter in_midi_range
            (map (\<lambda>interval. r + interval)
               (sort (drop (nat k) (chord_value q)
                      @ map (\<lambda>x. x + 12) (take (nat k) (chord_value q))))))"
    by (auto simp add: image_iff)
  with create_chord_inverted [OF assms(1) ys, of r d] show ?thesis
    by auto
qed

lemma create_chord_inversion_formula:
  assumes "0 < k" and "k \<le> int (length (chord_value q))" and "q = ADD9 \<longrightarrow> k \<le> 3"
  shows "create_chord r q k False
         = Inr (filter in_midi_range (map (\<lambda>interval. r + interval)
                 (sort (drop (nat k) (chord_value q)
                        @ map (\<lambda>x. x + 12) (take (nat k) (chord_value q))))))"
proof -
  from assms have "0 < nat k" and "nat k \<le> length (chord_value q)"
    and "q = ADD9 \<longrightarrow> nat k \<le> 3"
    by auto
  then have ys: "invert (nat k) (chord_value q)
      = Inr (sort (drop (nat k) (chord_value q)
                   @ map (\<lambda>x. x + 12) (take (nat k) (chord_value q))))"
    by (rule inversion_formula)
  from create_chord_inverted [OF assms(1) ys, of r False] show ?thesis
    by simp
qed

text \<open>
  C3 (as amended). With inversion 0, a root pitch inside the MIDI range 0..127 comes first
  in the returned chord. With an inversion \<open>k > 0\<close> the returned chord is sorted ascending,
  for every root, quality and doubling flag. When moreover \<open>k\<close> is at most the number of
  tones of the quality (at most 3 for the added-ninth chord), the intervals after the loop
  are the remaining tones followed by the \<open>k\<close> lowest tones raised by 12, sorted; so each of
  the \<open>k\<close> lowest tones appears transposed up one octave in the result, unless the raised
  pitch leaves the MIDI range and is dropped by the final filter.
\<close>

theorem create_chord_inversions:
  "(in_midi_range root' \<longrightarrow>
      (\<exists>rest. create_chord root' quality 0 octave_doubling = Inr (root' # rest)))
   \<and> (0 < k \<longrightarrow>
        (\<exists>ch. create_chord root' quality k octave_doubling = Inr ch \<and> sorted ch))
   \<and> (0 < k \<and> k \<le> int (length (chord_value quality)) \<and> (quality = ADD9 \<longrightarrow> k \<le> 3) \<longrightarrow>
        (\<exists>ch. create_chord root' quality k octave_doubling = Inr ch
           \<and> (\<forall>t \<in> set (take (nat k) (chord_value quality)).
                 in_midi_range (root' + t + 12) \<longrightarrow> root' + t + 12 \<in> set ch))
        \<and> create_chord root' quality k False
            = Inr (filter in_midi_range (map (\<lambda>interval. root' + interval)
                    (sort (drop (nat k) (chord_value quality)
                           @ map (\<lambda>x. x + 12) (take (nat k) (chord_value quality)))))))"
proof (intro conjI impI)
  assume "in_midi_range root'"
  then show "\<exists>rest. create_chord root' quality 0 octave_doubling = Inr (root' # rest)"
    by (rule create_chord_root_first)
next
  assume "0 < k"
  then show "\<exists>ch. create_chord root' quality k octave_doubling = Inr ch \<and> sorted ch"
    by (rule create_chord_inverted_sorted)
next
  assume "0 < k \<and> k \<le> int (length (chord_value quality)) \<and> (quality = ADD9 \<longrightarrow> k \<le> 3)"
  then have "0 < k" and "k \<le> int (length (chord_value quality))"
    and "quality = ADD9 \<longrightarrow> k \<le> 3"
    by blast+
  then show "\<exists>ch. create_chord root' quality k octave_doubling = Inr ch
           \<and> (\<forall>t \<in> set (take (nat k) (chord_value quality)).
                 in_midi_range (root' + t + 12) \<longrightarrow> root' + t + 12 \<in> set ch)"
    by (rule create_chord_raised_tones)
next
  assume "0 < k \<and> k \<le> int (length (chord_value quality)) \<and> (quality = ADD9 \<longrightarrow> k \<le> 3)"
  then have "0 < k" and "k \<le> int (length (chord_value quality))"
    and "quality = ADD9 \<longrightarrow> k \<le> 3"
    by blast+
  then show "create_chord root' quality k False
            = Inr (filter in_midi_range (map (\<lambda>interval. root' + interval)
                    (sort (drop (nat k) (chord_value quality)
                           @ map (\<lambda>x. x + 12) (take (nat k) (chord_value quality))))))"
    by (rule create_chord_inversion_formula)
qed

text \<open>
  The claim as first stated, for every inversion \<open>k > 0\<close>, fails for the added-ninth
  chord on middle C with \<open>k = 4\<close>: the original tones are 60, 64, 67, 74, the result is
  74, 76, 79, 84, and neither 72 nor 86 (the tones 60 and 74 raised by one octave) is in
  it, because the loop raised the lowest offset twice before it reached the ninth. It
  also fails when the raised pitch leaves the MIDI range.
\<close>

lemma add9_fourth_inversion: "create_chord 60 ADD9 4 False = Inr [74, 76, 79, 84]"
  by code_simp

lemma add9_root_position: "create_chord 60 ADD9 0 False = Inr [60, 64, 67, 74]"
  by code_simp

lemma major_high_first_inversion: "create_chord 120 ChordQuality.MAJOR 1 False = Inr [124, 127]"
  by code_simp

lemma major_high_root_position:
  "create_chord 120 ChordQuality.MAJOR 0 False = Inr [120, 124, 127]"
  by code_simp

theorem inversion_raises_lowest_counterexample:
  "create_chord 60 ADD9 0 False = Inr [60, 64, 67, 74]
   \<and> create_chord 60 ADD9 4 False = Inr [74, 76, 79, 84]
   \<and> (60 + 12 :: int) \<notin> set [74, 76, 79, 84]
   \<and> (74 + 12 :: int) \<notin> set [74, 76, 79, 84]
   \<and> create_chord 120 ChordQuality.MAJOR 0 False = Inr [120, 124, 127]
   \<and> create_chord 120 ChordQuality.MAJOR 1 False = Inr [124, 127]
   \<and> (120 + 12 :: int) \<notin> set [124, 127]"
  by (simp add: add9_fourth_inversion add9_root_position major_high_first_inversion
      major_high_root_position)

lemma major_tones: "chord_value ChordQuality.MAJOR = [0, 4, 7]"
  by simp

theorem create_chord_inversions_witness:
  "in_midi_range 60
   \<and> (\<exists>rest. create_chord 60 ChordQuality.MAJOR 0 True = Inr (60 # rest))
   \<and> (\<exists>ch. create_chord 60 ChordQuality.MAJOR 2 True = Inr ch \<and> sorted ch
          \<and> 60 + 0 + 12 \<in> set ch \<and> 60 + 4 + 12 \<in> set ch)
   \<and> create_chord 60 ChordQuality.MAJOR 2 False = Inr [67, 72, 76]"
proof -
  have r: "in_midi_range 60"
    by (simp add: in_midi_range_def)
  have k: "(0::int) < 2 \<and> 2 \<le> int (length (chord_value ChordQuality.MAJOR))
           \<and> (ChordQuality.MAJOR = ADD9 \<longrightarrow> (2::int) \<le> 3)"
    by simp
  note inst = create_chord_inversions [of 60 ChordQuality.MAJOR True 2]
  from inst r have a: "\<exists>rest. create_chord 60 ChordQuality.MAJOR 0 True = Inr (60 # rest)"
    by blast
  from inst have "\<exists>ch. create_chord 60 ChordQuality.MAJOR 2 True = Inr ch \<and> sorted ch"
    by simp
  then obtain ch where ch: "create_chord 60 ChordQuality.MAJOR 2 True = Inr ch"
    and s: "sorted ch"
    by blast
  from inst k obtain ch' where ch': "create_chord 60 ChordQuality.MAJOR 2 True = Inr ch'"
    and m: "\<forall>t \<in> set (take (nat 2) (chord_value ChordQuality.MAJOR)).
              in_midi_range (60 + t + 12) \<longrightarrow> 60 + t + 12 \<in> set ch'"
    by blast
  from ch ch' have same: "ch' = ch"
    by simp
  have t: "take (nat 2) (chord_value ChordQuality.MAJOR) = [0, 4]"
    by (simp add: numeral_2_eq_2)
  from m have "60 + 0 + 12 \<in> set ch \<and> 60 + 4 + 12 \<in> set ch"
    unfolding t same by (simp add: in_midi_range_def)
  with ch s have b: "\<exists>ch. create_chord 60 ChordQuality.MAJOR 2 True = Inr ch \<and> sorted ch
          \<and> 60 + 0 + 12 \<in> set ch \<and> 60 + 4 + 12 \<in> set ch"
    by blast
  from inst k have "create_chord 60 ChordQuality.MAJOR 2 False
            = Inr (filter in_midi_range (map (\<lambda>interval. 60 + interval)
                    (sort (drop (nat 2) (chord_value ChordQuality.MAJOR)
                           @ map (\<lambda>x. x + 12) (take (nat 2) (chord_value ChordQuality.MAJOR))))))"
    by blast
  also have "\<dots> = Inr [67, 72, 76]"
    unfolding t by (simp add: in_midi_range_def numeral_2_eq_2)
  finally have c: "create_chord 60 ChordQuality.MAJOR 2 False = Inr [67, 72, 76]" .
  from r a b c show ?thesis
    by (intro conjI)
qed

section \<open>Properties of the track builders\<close>

lemma electric_piano_program: "INSTRUMENTS_get ''electric_piano'' 4 = 4"
  by code_simp

lemma create_chord_root_position:
  "create_chord r q 0 False = Inr (filter in_midi_range (map (\<lambda>interval. r + interval) (chord_value q)))"
  by (simp add: create_chord_def)

lemma chord_root_positive:
  "1 \<le> d \<Longrightarrow> chord_root sn d r = Inr (if d \<le> int (length sn) then sn ! nat (d - 1) else r)"
  by (simp add: chord_root_def py_index_def)

lemma degree_chord_positive:
  "1 \<le> d \<Longrightarrow> degree_chord r st sn d =
     Inr (filter in_midi_range
            (map (\<lambda>interval. (if d \<le> int (length sn) then sn ! nat (d - 1) else r) + interval)
                 (chord_value (harmonize_degree d st))))"
  by (simp add: degree_chord_def chord_root_positive create_chord_root_position)

lemma degree_chord_in_range:
  "degree_chord r st sn d = Inr c \<Longrightarrow> p \<in> set c \<Longrightarrow> in_midi_range p"
  by (auto simp add: degree_chord_def create_chord_root_position split: sum.splits)

lemma progression_four:
  assumes "degree_chord r st sn a = Inr ca" and "degree_chord r st sn b = Inr cb"
    and "degree_chord r st sn c = Inr cc" and "degree_chord r st sn e = Inr ce"
  shows "chord_progression_loop r st sn dpc [a, b, c, e] [] 0 =
           Inr (map (\<lambda>p. mk_Note p 0 dpc 70) ca @ map (\<lambda>p. mk_Note p dpc dpc 70) cb
                @ map (\<lambda>p. mk_Note p (2 * dpc) dpc 70) cc
                @ map (\<lambda>p. mk_Note p (3 * dpc) dpc 70) ce, 4 * dpc)"
  using assms by simp

lemma pitch_mk_Note: "in_midi_range p \<Longrightarrow> pitch (mk_Note p t d v) = p"
  by (simp add: mk_Note_def in_midi_range_def)

lemma map_pitch_chord:
  "\<forall>p \<in> set c. in_midi_range p \<Longrightarrow> map pitch (map (\<lambda>p. mk_Note p t d v) c) = c"
  by (induction c) (simp_all add: pitch_mk_Note)

lemma degree_chord_above:
  "int (length sn) < g \<Longrightarrow> degree_chord r st sn g = create_chord r (harmonize_degree g st) 0 False"
  by (simp add: degree_chord_def chord_root_def)

lemma degree_chord_from_end:
  "- int (length sn) < g \<Longrightarrow> g \<le> 0
   \<Longrightarrow> degree_chord r st sn g
       = create_chord (sn ! nat (int (length sn) + g - 1)) (harmonize_degree g st) 0 False"
  using py_index_from_end [of sn "g - 1"]
  by (simp add: degree_chord_def chord_root_def algebra_simps)

lemma degree_chord_zero:
  "sn \<noteq> [] \<Longrightarrow> degree_chord r st sn 0 = create_chord (last sn) (harmonize_degree 0 st) 0 False"
  by (simp add: degree_chord_def chord_root_def py_index_last)

lemma degree_chord_select:
  assumes "- int (length sn) < g"
  shows "degree_chord r st sn g =
     Inr (filter in_midi_range
            (map (\<lambda>interval. (if int (length sn) < g then r
                               else if 0 < g then sn ! nat (g - 1)
                               else sn ! nat (int (length sn) + g - 1)) + interval)
                 (chord_value (harmonize_degree g st))))"
proof (cases "0 < g")
  case True
  then show ?thesis
    by (simp add: degree_chord_positive)
next
  case False
  with assms show ?thesis
    by (simp add: degree_chord_from_end create_chord_root_position)
qed

lemma chord_progression_loop_pitches:
  assumes "\<forall>g \<in> set prog. - int (length sn) < g"
  shows "\<exists>ns t'. chord_progression_loop r st sn d prog acc t = Inr (ns, t')
           \<and> map pitch ns = map pitch acc
               @ concat (map (\<lambda>g. filter in_midi_range
                   (map (\<lambda>interval. (if int (length sn) < g then r
                                      else if 0 < g then sn ! nat (g - 1)
                                      else sn ! nat (int (length sn) + g - 1)) + interval)
                        (chord_value (harmonize_degree g st)))) prog)"
  using assms
proof (induction prog arbitrary: acc t)
  case Nil
  then show ?case
    by simp
next
  case (Cons g rest)
  let ?c = "filter in_midi_range
              (map (\<lambda>interval. (if int (length sn) < g then r
                                 else if 0 < g then sn ! nat (g - 1)
                                 else sn ! nat (int (length sn) + g - 1)) + interval)
                   (chord_value (harmonize_degree g st)))"
  from Cons.prems have g: "- int (length sn) < g" and rest: "\<forall>g \<in> set rest. - int (length sn) < g"
    by simp_all
  have c: "degree_chord r st sn g = Inr ?c"
    using g by (rule degree_chord_select)
  have p: "map pitch (map (\<lambda>p. mk_Note p t d 70) ?c) = ?c"
    by (rule map_pitch_chord) simp
  from Cons.IH [OF rest, of "acc @ map (\<lambda>p. mk_Note p t d 70) ?c" "t + d"]
  obtain ns t' where
    run: "chord_progression_loop r st sn d rest (acc @ map (\<lambda>p. mk_Note p t d 70) ?c) (t + d)
            = Inr (ns, t')"
    and ps: "map pitch ns = map pitch (acc @ map (\<lambda>p. mk_Note p t d 70) ?c)
               @ concat (map (\<lambda>g. filter in_midi_range
                   (map (\<lambda>interval. (if int (length sn) < g then r
                                      else if 0 < g then sn ! nat (g - 1)
                                      else sn ! nat (int (length sn) + g - 1)) + interval)
                        (chord_value (harmonize_degree g st)))) rest)"
    by blast
  have "chord_progression_loop r st sn d (g # rest) acc t = Inr (ns, t')"
    using c run by simp
  moreover have "map pitch ns = map pitch acc
               @ concat (map (\<lambda>g. filter in_midi_range
                   (map (\<lambda>interval. (if int (length sn) < g then r
                                      else if 0 < g then sn ! nat (g - 1)
                                      else sn ! nat (int (length sn) + g - 1)) + interval)
                        (chord_value (harmonize_degree g st)))) (g # rest))"
    using ps p by simp
  ultimately show ?case
    by blast
qed

lemma create_chord_progression_pitches:
  assumes "\<forall>g \<in> set prog. - int (length (get_scale_notes r st 3)) < g"
  shows "\<exists>tr. create_chord_progression r st prog d = Inr tr
           \<and> map pitch (track_notes tr) =
               concat (map (\<lambda>g. filter in_midi_range
                   (map (\<lambda>interval. (if int (length (get_scale_notes r st 3)) < g then r
                                      else if 0 < g then get_scale_notes r st 3 ! nat (g - 1)
                                      else get_scale_notes r st 3
                                             ! nat (int (length (get_scale_notes r st 3)) + g - 1))
                                     + interval)
                        (chord_value (harmonize_degree g st)))) prog)"
proof -
  from chord_progression_loop_pitches [OF assms, of r st d "[]" 0] obtain ns t' where
    run: "chord_progression_loop r st (get_scale_notes r st 3) d prog [] 0 = Inr (ns, t')"
    and ps: "map pitch ns =
               concat (map (\<lambda>g. filter in_midi_range
                   (map (\<lambda>interval. (if int (length (get_scale_notes r st 3)) < g then r
                                      else if 0 < g then get_scale_notes r st 3 ! nat (g - 1)
                                      else get_scale_notes r st 3
                                             ! nat (int (length (get_scale_notes r st 3)) + g - 1))
                                     + interval)
                        (chord_value (harmonize_degree g st)))) prog)"
    by auto
  have "create_chord_progression r st prog d =
          Inr \<lparr>name = ''Chord Progression'', channel = 0, track_notes = ns, program = 4\<rparr>"
    unfolding create_chord_progression_def run electric_piano_program by simp
  with ps show ?thesis
    by simp
qed

lemma create_chord_progression_zero:
  assumes "get_scale_notes r st 3 \<noteq> []"
  shows "\<exists>tr. create_chord_progression r st [0] d = Inr tr
           \<and> map pitch (track_notes tr) =
               filter in_midi_range
                 (map (\<lambda>interval. Max (set (get_scale_notes r st 3)) + interval)
                      (chord_value (harmonize_degree 0 st)))"
proof -
  from assms have "\<forall>g \<in> set [0]. - int (length (get_scale_notes r st 3)) < g"
    by simp
  from create_chord_progression_pitches [OF this, of d] obtain tr where
    built: "create_chord_progression r st [0] d = Inr tr"
    and ps: "map pitch (track_notes tr) =
               concat (map (\<lambda>g. filter in_midi_range
                   (map (\<lambda>interval. (if int (length (get_scale_notes r st 3)) < g then r
                                      else if 0 < g then get_scale_notes r st 3 ! nat (g - 1)
                                      else get_scale_notes r st 3
                                             ! nat (int (length (get_scale_notes r st 3)) + g - 1))
                                     + interval)
                        (chord_value (harmonize_degree g st)))) [0])"
    by blast
  have "get_scale_notes r st 3 ! nat (int (length (get_scale_notes r st 3)) + 0 - 1)
          = last (get_scale_notes r st 3)"
    using assms by (simp add: last_conv_nth nat_diff_distrib')
  also have "\<dots> = Max (set (get_scale_notes r st 3))"
    using get_scale_notes_sorted assms by (rule sorted_last_Max)
  finally have sel: "get_scale_notes r st 3 ! nat (int (length (get_scale_notes r st 3)) + 0 - 1)
          = Max (set (get_scale_notes r st 3))" .
  have "map pitch (track_notes tr) =
               filter in_midi_range
                 (map (\<lambda>interval. Max (set (get_scale_notes r st 3)) + interval)
                      (chord_value (harmonize_degree 0 st)))"
    unfolding ps using sel by simp
  with built show ?thesis
    by blast
qed

lemma scale_value_head: "\<exists>rest. scale_value st = 0 # rest"
  by (cases st) simp_all

lemma get_scale_notes_head:
  assumes "in_midi_range r"
  shows "\<exists>rest. get_scale_notes r st 3 = r # rest"
proof -
  from scale_value_head [of st] obtain ivs where "scale_value st = 0 # ivs"
    by blast
  moreover have "py_range 3 = [0, 1, 2]"
    by (simp add: py_range_def numeral_3_eq_3 upt_rec)
  ultimately show ?thesis
    using assms by (simp add: get_scale_notes_concat)
qed

text \<open>
  C2 (as amended). For the progression \<open>[1,4,5,1]\<close> in the major scale, with any root
  and any chord duration, the builder returns a track whose pitches are those of four
  chords in a row; the first and the fourth, both built on degree 1, are the same pitch
  list (for a root in the MIDI range, the major triad on the root). The second chord is
  built on degree 4 and in general differs from the fourth. Every note has the chord
  duration and velocity 70. The statement is about pitches, durations and velocities
  only, so it does not depend on how the time cursor is added up.
\<close>

theorem progression_first_fourth_chord:
  "\<exists>c1 c2 c3 tr.
      degree_chord root' ScaleType.MAJOR (get_scale_notes root' ScaleType.MAJOR 3) 1 = Inr c1
    \<and> degree_chord root' ScaleType.MAJOR (get_scale_notes root' ScaleType.MAJOR 3) 4 = Inr c2
    \<and> degree_chord root' ScaleType.MAJOR (get_scale_notes root' ScaleType.MAJOR 3) 5 = Inr c3
    \<and> create_chord_progression root' ScaleType.MAJOR [1, 4, 5, 1] d = Inr tr
    \<and> map pitch (track_notes tr) = c1 @ c2 @ c3 @ c1
    \<and> take (length c1) (map pitch (track_notes tr))
        = drop (length c1 + length c2 + length c3) (map pitch (track_notes tr))
    \<and> list_all (\<lambda>n. duration n = d \<and> velocity n = 70) (track_notes tr)
    \<and> (in_midi_range root' \<longrightarrow>
          c1 = filter in_midi_range [root', root' + 4, root' + 7] \<and> hd c1 = root')"
proof -
  let ?sn = "get_scale_notes root' ScaleType.MAJOR 3"
  obtain c1 where c1: "degree_chord root' ScaleType.MAJOR ?sn 1 = Inr c1"
    using degree_chord_positive [of 1 root' ScaleType.MAJOR ?sn] by simp
  obtain c2 where c2: "degree_chord root' ScaleType.MAJOR ?sn 4 = Inr c2"
    using degree_chord_positive [of 4 root' ScaleType.MAJOR ?sn] by simp
  obtain c3 where c3: "degree_chord root' ScaleType.MAJOR ?sn 5 = Inr c3"
    using degree_chord_positive [of 5 root' ScaleType.MAJOR ?sn] by simp
  define tr where "tr = \<lparr>name = ''Chord Progression'', channel = 0,
      track_notes = map (\<lambda>p. mk_Note p 0 d 70) c1 @ map (\<lambda>p. mk_Note p d d 70) c2
          @ map (\<lambda>p. mk_Note p (2 * d) d 70) c3 @ map (\<lambda>p. mk_Note p (3 * d) d 70) c1,
      program = 4\<rparr>"
  have built: "create_chord_progression root' ScaleType.MAJOR [1, 4, 5, 1] d = Inr tr"
    unfolding create_chord_progression_def progression_four [OF c1 c2 c3 c1]
      electric_piano_program tr_def
    by simp
  have r1: "\<forall>p \<in> set c1. in_midi_range p" and r2: "\<forall>p \<in> set c2. in_midi_range p"
    and r3: "\<forall>p \<in> set c3. in_midi_range p"
    using degree_chord_in_range [OF c1] degree_chord_in_range [OF c2]
      degree_chord_in_range [OF c3] by blast+
  have pitches: "map pitch (track_notes tr) = c1 @ c2 @ c3 @ c1"
    by (simp del: map_map add: tr_def map_pitch_chord [OF r1] map_pitch_chord [OF r2]
        map_pitch_chord [OF r3])
  have same: "take (length c1) (map pitch (track_notes tr))
        = drop (length c1 + length c2 + length c3) (map pitch (track_notes tr))"
    unfolding pitches by simp
  have each: "list_all (\<lambda>n. duration n = d \<and> velocity n = 70) (track_notes tr)"
    by (auto simp add: tr_def list_all_iff mk_Note_def)
  have triad: "in_midi_range root' \<longrightarrow>
          c1 = filter in_midi_range [root', root' + 4, root' + 7] \<and> hd c1 = root'"
  proof
    assume valid: "in_midi_range root'"
    from get_scale_notes_head [OF this, of ScaleType.MAJOR] obtain rest where
      sn: "?sn = root' # rest"
      by blast
    from c1 have "c1 = filter in_midi_range [root', root' + 4, root' + 7]"
      unfolding sn by (simp add: degree_chord_positive harmonize_degree_def)
    with valid show "c1 = filter in_midi_range [root', root' + 4, root' + 7] \<and> hd c1 = root'"
      by simp
  qed
  from c1 c2 c3 built pitches same each triad show ?thesis
    by blast
qed

lemma chord_60_degree_1:
  "degree_chord 60 ScaleType.MAJOR (get_scale_notes 60 ScaleType.MAJOR 3) 1 = Inr [60, 64, 67]"
  by (simp add: degree_chord_positive expand_60 harmonize_degree_def in_midi_range_def)

lemma chord_60_degree_4:
  "degree_chord 60 ScaleType.MAJOR (get_scale_notes 60 ScaleType.MAJOR 3) 4 = Inr [65, 69, 72]"
  by (simp add: degree_chord_positive expand_60 harmonize_degree_def in_midi_range_def)

lemma chord_60_degree_5:
  "degree_chord 60 ScaleType.MAJOR (get_scale_notes 60 ScaleType.MAJOR 3) 5 = Inr [67, 71, 74]"
  by (simp add: degree_chord_positive expand_60 harmonize_degree_def in_midi_range_def)

lemma progression_60:
  "create_chord_progression 60 ScaleType.MAJOR [1, 4, 5, 1] 4 =
     Inr \<lparr>name = ''Chord Progression'', channel = 0,
          track_notes =
            [mk_Note 60 0 4 70, mk_Note 64 0 4 70, mk_Note 67 0 4 70,
             mk_Note 65 4 4 70, mk_Note 69 4 4 70, mk_Note 72 4 4 70,
             mk_Note 67 8 4 70, mk_Note 71 8 4 70, mk_Note 74 8 4 70,
             mk_Note 60 12 4 70, mk_Note 64 12 4 70, mk_Note 67 12 4 70],
          program = 4\<rparr>"
  unfolding create_chord_progression_def
    progression_four [OF chord_60_degree_1 chord_60_degree_4 chord_60_degree_5 chord_60_degree_1]
    electric_piano_program
  by simp

lemma sets_differ: "{65, 69, 72} \<noteq> {60, 64, 67 :: int}"
proof
  assume "{65, 69, 72} = {60, 64, 67 :: int}"
  then have "(65::int) \<in> {60, 64, 67}"
    by blast
  then show False
    by simp
qed

text \<open>
  The claim as first stated, that the second and the fourth chord are the same pitch
  set, fails on middle C with four beats a chord: the second chord, on degree 4, is
  F major and the fourth, on degree 1, is C major. (The cursor values 0, 4, 8 and 12
  of this run are exact in binary floating point.)
\<close>

theorem progression_second_fourth_counterexample:
  "\<not> isl (create_chord_progression 60 ScaleType.MAJOR [1, 4, 5, 1] 4)
   \<and> pitches_at (projr (create_chord_progression 60 ScaleType.MAJOR [1, 4, 5, 1] 4)) 4
       = [65, 69, 72]
   \<and> pitches_at (projr (create_chord_progression 60 ScaleType.MAJOR [1, 4, 5, 1] 4)) 12
       = [60, 64, 67]
   \<and> set (pitches_at (projr (create_chord_progression 60 ScaleType.MAJOR [1, 4, 5, 1] 4)) 4)
       \<noteq> set (pitches_at (projr (create_chord_progression 60 ScaleType.MAJOR [1, 4, 5, 1] 4)) 12)
   \<and> degree_chord 60 ScaleType.MAJOR (get_scale_notes 60 ScaleType.MAJOR 3) 4 = Inr [65, 69, 72]
   \<and> degree_chord 60 ScaleType.MAJOR (get_scale_notes 60 ScaleType.MAJOR 3) 1 = Inr [60, 64, 67]
   \<and> map pitch (track_notes (projr (create_chord_progression 60 ScaleType.MAJOR [1, 4, 5, 1] 4)))
       = [60, 64, 67, 65, 69, 72, 67, 71, 74, 60, 64, 67]"
  unfolding progression_60 chord_60_degree_1 chord_60_degree_4
  by (simp add: pitches_at_def mk_Note_def sets_differ)

theorem progression_first_fourth_chord_witness:
  "in_midi_range 60
   \<and> (\<exists>tr. create_chord_progression 60 ScaleType.MAJOR [1, 4, 5, 1] 4 = Inr tr
         \<and> map pitch (track_notes tr) = [60, 64, 67] @ [65, 69, 72] @ [67, 71, 74] @ [60, 64, 67]
         \<and> list_all (\<lambda>n. duration n = 4 \<and> velocity n = 70) (track_notes tr))"
proof -
  have valid: "in_midi_range 60"
    by (simp add: in_midi_range_def)
  from progression_first_fourth_chord [of 60 4] obtain c1 c2 c3 tr where
    c1: "degree_chord 60 ScaleType.MAJOR (get_scale_notes 60 ScaleType.MAJOR 3) 1 = Inr c1"
    and c2: "degree_chord 60 ScaleType.MAJOR (get_scale_notes 60 ScaleType.MAJOR 3) 4 = Inr c2"
    and c3: "degree_chord 60 ScaleType.MAJOR (get_scale_notes 60 ScaleType.MAJOR 3) 5 = Inr c3"
    and built: "create_chord_progression 60 ScaleType.MAJOR [1, 4, 5, 1] 4 = Inr tr"
    and pitches: "map pitch (track_notes tr) = c1 @ c2 @ c3 @ c1"
    and each: "list_all (\<lambda>n. duration n = 4 \<and> velocity n = 70) (track_notes tr)"
    and triad: "in_midi_range 60 \<longrightarrow>
          c1 = filter in_midi_range [60, 60 + 4, 60 + 7] \<and> hd c1 = 60"
    by blast
  from triad valid have "c1 = [60, 64, 67]"
    by (simp add: in_midi_range_def)
  moreover have "c2 = [65, 69, 72]" and "c3 = [67, 71, 74]"
    using c2 c3 chord_60_degree_4 chord_60_degree_5 by simp_all
  ultimately have "map pitch (track_notes tr)
      = [60, 64, 67] @ [65, 69, 72] @ [67, 71, 74] @ [60, 64, 67]"
    using pitches by simp
  with valid built each show ?thesis
    by blast
qed

text \<open>
  C8. In the chord-progression builder the fallback to the unmodified root is taken
  only when the degree exceeds the length of the expansion. A degree \<open>d\<close> with
  \<open>-len < d \<le> 0\<close> indexes from the end: the chord of that round is built on the element
  at position \<open>len + d - 1\<close>, so degree 0 builds its chord on the last, highest element
  of a non-empty expansion. (A degree \<open>d \<le> -len\<close> raises \<open>IndexError\<close>.) The property is
  stated for the chord root, for the chord one round of the loop builds, and for the
  pitches of the track the builder returns.
\<close>

theorem progression_nonpositive_degree:
  "(int (length scale_notes) < degree \<longrightarrow> chord_root scale_notes degree root' = Inr root')
   \<and> (degree \<le> int (length scale_notes) \<longrightarrow>
        chord_root scale_notes degree root' = Inl IndexError
        \<or> (\<exists>x. x \<in> set scale_notes \<and> chord_root scale_notes degree root' = Inr x))
   \<and> (scale_notes \<noteq> [] \<longrightarrow> chord_root scale_notes 0 root' = Inr (last scale_notes))
   \<and> (- int (length scale_notes) < degree \<and> degree \<le> 0 \<longrightarrow>
        chord_root scale_notes degree root'
          = Inr (scale_notes ! nat (int (length scale_notes) + degree - 1)))
   \<and> (get_scale_notes root' scale_type 3 \<noteq> [] \<longrightarrow>
        chord_root (get_scale_notes root' scale_type 3) 0 root'
          = Inr (Max (set (get_scale_notes root' scale_type 3))))
   \<and> (int (length scale_notes) < degree \<longrightarrow>
        degree_chord root' scale_type scale_notes degree
          = create_chord root' (harmonize_degree degree scale_type) 0 False)
   \<and> (- int (length scale_notes) < degree \<and> degree \<le> 0 \<longrightarrow>
        degree_chord root' scale_type scale_notes degree
          = create_chord (scale_notes ! nat (int (length scale_notes) + degree - 1))
              (harmonize_degree degree scale_type) 0 False)
   \<and> (scale_notes \<noteq> [] \<longrightarrow>
        degree_chord root' scale_type scale_notes 0
          = create_chord (last scale_notes) (harmonize_degree 0 scale_type) 0 False)
   \<and> (degree \<le> - int (length scale_notes) \<longrightarrow>
        degree_chord root' scale_type scale_notes degree = Inl IndexError)
   \<and> (get_scale_notes root' scale_type 3 \<noteq> [] \<longrightarrow>
        (\<exists>tr. create_chord_progression root' scale_type [0] d = Inr tr
           \<and> map pitch (track_notes tr) =
               filter in_midi_range
                 (map (\<lambda>interval. Max (set (get_scale_notes root' scale_type 3)) + interval)
                      (chord_value (harmonize_degree 0 scale_type)))))
   \<and> ((\<forall>g \<in> set progression. - int (length (get_scale_notes root' scale_type 3)) < g) \<longrightarrow>
        (\<exists>tr. create_chord_progression root' scale_type progression d = Inr tr
           \<and> map pitch (track_notes tr) =
               concat (map (\<lambda>g. filter in_midi_range
                   (map (\<lambda>interval.
                           (if int (length (get_scale_notes root' scale_type 3)) < g then root'
                            else if 0 < g then get_scale_notes root' scale_type 3 ! nat (g - 1)
                            else get_scale_notes root' scale_type 3
                                   ! nat (int (length (get_scale_notes root' scale_type 3)) + g - 1))
                           + interval)
                        (chord_value (harmonize_degree g scale_type)))) progression)))
   \<and> (degree \<le> - int (length (get_scale_notes root' scale_type 3)) \<longrightarrow>
        create_chord_progression root' scale_type (degree # progression) d = Inl IndexError)"
proof (intro conjI impI)
  assume "int (length scale_notes) < degree"
  then show "chord_root scale_notes degree root' = Inr root'"
    by (simp add: chord_root_def)
next
  assume "degree \<le> int (length scale_notes)"
  then have "chord_root scale_notes degree root' = py_index scale_notes (degree - 1)"
    by (simp add: chord_root_def)
  then show "chord_root scale_notes degree root' = Inl IndexError
        \<or> (\<exists>x. x \<in> set scale_notes \<and> chord_root scale_notes degree root' = Inr x)"
    using py_index_in_set [of scale_notes "degree - 1"]
    by (cases "py_index scale_notes (degree - 1)") (auto simp add: py_index_def split: if_splits)
next
  assume "scale_notes \<noteq> []"
  then show "chord_root scale_notes 0 root' = Inr (last scale_notes)"
    by (simp add: chord_root_def py_index_last)
next
  assume "- int (length scale_notes) < degree \<and> degree \<le> 0"
  then show "chord_root scale_notes degree root'
          = Inr (scale_notes ! nat (int (length scale_notes) + degree - 1))"
    using py_index_from_end [of scale_notes "degree - 1"]
    by (simp add: chord_root_def algebra_simps)
next
  assume ne: "get_scale_notes root' scale_type 3 \<noteq> []"
  then have "chord_root (get_scale_notes root' scale_type 3) 0 root'
               = Inr (last (get_scale_notes root' scale_type 3))"
    by (simp add: chord_root_def py_index_last)
  with ne show "chord_root (get_scale_notes root' scale_type 3) 0 root'
          = Inr (Max (set (get_scale_notes root' scale_type 3)))"
    using sorted_last_Max [OF get_scale_notes_sorted ne] by simp
next
  assume "int (length scale_notes) < degree"
  then show "degree_chord root' scale_type scale_notes degree
          = create_chord root' (harmonize_degree degree scale_type) 0 False"
    by (simp add: degree_chord_above)
next
  assume "- int (length scale_notes) < degree \<and> degree \<le> 0"
  then show "degree_chord root' scale_type scale_notes degree
          = create_chord (scale_notes ! nat (int (length scale_notes) + degree - 1))
              (harmonize_degree degree scale_type) 0 False"
    by (simp add: degree_chord_from_end)
next
  assume "scale_notes \<noteq> []"
  then show "degree_chord root' scale_type scale_notes 0
          = create_chord (last scale_notes) (harmonize_degree 0 scale_type) 0 False"
    by (simp add: degree_chord_zero)
next
  assume "degree \<le> - int (length scale_notes)"
  then show "degree_chord root' scale_type scale_notes degree = Inl IndexError"
    by (simp add: degree_chord_def chord_root_def py_index_below)
next
  assume "get_scale_notes root' scale_type 3 \<noteq> []"
  then show "(\<exists>tr. create_chord_progression root' scale_type [0] d = Inr tr
           \<and> map pitch (track_notes tr) =
               filter in_midi_range
                 (map (\<lambda>interval. Max (set (get_scale_notes root' scale_type 3)) + interval)
                      (chord_value (harmonize_degree 0 scale_type))))"
    by (rule create_chord_progression_zero)
next
  assume "(\<forall>g \<in> set progression. - int (length (get_scale_notes root' scale_type 3)) < g)"
  then show "(\<exists>tr. create_chord_progression root' scale_type progression d = Inr tr
           \<and> map pitch (track_notes tr) =
               concat (map (\<lambda>g. filter in_midi_range
                   (map (\<lambda>interval.
                           (if int (length (get_scale_notes root' scale_type 3)) < g then root'
                            else if 0 < g then get_scale_notes root' scale_type 3 ! nat (g - 1)
                            else get_scale_notes root' scale_type 3
                                   ! nat (int (length (get_scale_notes root' scale_type 3)) + g - 1))
                           + interval)
                        (chord_value (harmonize_degree g scale_type)))) progression))"
    by (rule create_chord_progression_pitches)
next
  assume "degree \<le> - int (length (get_scale_notes root' scale_type 3))"
  then show "create_chord_progression root' scale_type (degree # progression) d = Inl IndexError"
    by (simp add: create_chord_progression_def degree_chord_def chord_root_def py_index_below)
qed

lemma harmonize_outside_major:
  "harmonize_degree 0 ScaleType.MAJOR = ChordQuality.MAJOR"
  "harmonize_degree (- 1) ScaleType.MAJOR = ChordQuality.MAJOR"
  "harmonize_degree 22 ScaleType.MAJOR = ChordQuality.MAJOR"
  "harmonize_degree 1 ScaleType.MAJOR = ChordQuality.MAJOR"
  by (simp_all add: harmonize_degree_def)

theorem progression_nonpositive_degree_witness:
  "chord_root (get_scale_notes 60 ScaleType.MAJOR 3) 0 60 = Inr 95
   \<and> chord_root (get_scale_notes 60 ScaleType.MAJOR 3) (- 1) 60 = Inr 93
   \<and> chord_root (get_scale_notes 60 ScaleType.MAJOR 3) 22 60 = Inr 60
   \<and> degree_chord 60 ScaleType.MAJOR (get_scale_notes 60 ScaleType.MAJOR 3) 0 = Inr [95, 99, 102]
   \<and> degree_chord 60 ScaleType.MAJOR (get_scale_notes 60 ScaleType.MAJOR 3) 22 = Inr [60, 64, 67]
   \<and> degree_chord 60 ScaleType.MAJOR (get_scale_notes 60 ScaleType.MAJOR 3) (- 21)
        = Inl IndexError
   \<and> (\<exists>tr. create_chord_progression 60 ScaleType.MAJOR [0] 4 = Inr tr
          \<and> map pitch (track_notes tr) = [95, 99, 102])
   \<and> (\<exists>tr. create_chord_progression 60 ScaleType.MAJOR [0, - 1, 22, 1] 4 = Inr tr
          \<and> map pitch (track_notes tr) = [95, 99, 102, 93, 97, 100, 60, 64, 67, 60, 64, 67])
   \<and> create_chord_progression 60 ScaleType.MAJOR [- 21, 1] 4 = Inl IndexError"
proof -
  let ?sn = "get_scale_notes 60 ScaleType.MAJOR 3"
  have ne: "?sn \<noteq> []"
    by (simp add: expand_60)
  have len: "length ?sn = 21"
    by (simp add: expand_60)
  have mx: "Max (set ?sn) = 95"
    by (simp add: expand_60)
  have lst: "last ?sn = 95" and nxt: "?sn ! nat (int (length ?sn) + (- 1) - 1) = 93"
    by (simp_all add: expand_60)
  have a: "chord_root ?sn 0 60 = Inr (last ?sn)"
    using progression_nonpositive_degree [of ?sn 0 60 ScaleType.MAJOR 4 "[]"] ne by blast
  have p: "- int (length ?sn) < - 1 \<and> (- 1 :: int) \<le> 0"
    using len by simp
  have b: "chord_root ?sn (- 1) 60 = Inr (?sn ! nat (int (length ?sn) + (- 1) - 1))"
    using progression_nonpositive_degree [of ?sn "- 1" 60 ScaleType.MAJOR 4 "[]"] p by blast
  have q: "int (length ?sn) < 22"
    using len by simp
  have c: "chord_root ?sn 22 60 = Inr 60"
    using progression_nonpositive_degree [of ?sn 22 60 ScaleType.MAJOR 4 "[]"] q by blast
  have "degree_chord 60 ScaleType.MAJOR ?sn 0
          = create_chord (last ?sn) (harmonize_degree 0 ScaleType.MAJOR) 0 False"
    using progression_nonpositive_degree [of ?sn 0 60 ScaleType.MAJOR 4 "[]"] ne by blast
  then have e: "degree_chord 60 ScaleType.MAJOR ?sn 0 = Inr [95, 99, 102]"
    unfolding lst harmonize_outside_major
    by (simp add: create_chord_root_position in_midi_range_def)
  have "degree_chord 60 ScaleType.MAJOR ?sn 22
          = create_chord 60 (harmonize_degree 22 ScaleType.MAJOR) 0 False"
    using progression_nonpositive_degree [of ?sn 22 60 ScaleType.MAJOR 4 "[]"] q by blast
  then have f: "degree_chord 60 ScaleType.MAJOR ?sn 22 = Inr [60, 64, 67]"
    unfolding harmonize_outside_major
    by (simp add: create_chord_root_position in_midi_range_def)
  have low: "(- 21 :: int) \<le> - int (length ?sn)"
    using len by simp
  have g: "degree_chord 60 ScaleType.MAJOR ?sn (- 21) = Inl IndexError"
    using progression_nonpositive_degree [of ?sn "- 21" 60 ScaleType.MAJOR 4 "[]"] low by blast
  have m: "create_chord_progression 60 ScaleType.MAJOR [- 21, 1] 4 = Inl IndexError"
    using progression_nonpositive_degree [of ?sn "- 21" 60 ScaleType.MAJOR 4 "[1]"] low by blast
  have "\<exists>tr. create_chord_progression 60 ScaleType.MAJOR [0] 4 = Inr tr
           \<and> map pitch (track_notes tr) =
               filter in_midi_range
                 (map (\<lambda>interval. Max (set ?sn) + interval)
                      (chord_value (harmonize_degree 0 ScaleType.MAJOR)))"
    using progression_nonpositive_degree [of ?sn 0 60 ScaleType.MAJOR 4 "[]"] ne by blast
  then have h: "\<exists>tr. create_chord_progression 60 ScaleType.MAJOR [0] 4 = Inr tr
          \<and> map pitch (track_notes tr) = [95, 99, 102]"
    unfolding mx harmonize_outside_major by (simp add: in_midi_range_def)
  have all: "\<forall>g \<in> set [0, - 1, 22, 1]. - int (length ?sn) < g"
    using len by simp
  have "\<exists>tr. create_chord_progression 60 ScaleType.MAJOR [0, - 1, 22, 1] 4 = Inr tr
           \<and> map pitch (track_notes tr) =
               concat (map (\<lambda>g. filter in_midi_range
                   (map (\<lambda>interval.
                           (if int (length ?sn) < g then 60
                            else if 0 < g then ?sn ! nat (g - 1)
                            else ?sn ! nat (int (length ?sn) + g - 1))
                           + interval)
                        (chord_value (harmonize_degree g ScaleType.MAJOR)))) [0, - 1, 22, 1])"
    using progression_nonpositive_degree [of ?sn 0 60 ScaleType.MAJOR 4 "[0, - 1, 22, 1]"] all
    by blast
  moreover have "concat (map (\<lambda>g. filter in_midi_range
                   (map (\<lambda>interval.
                           (if int (length ?sn) < g then 60
                            else if 0 < g then ?sn ! nat (g - 1)
                            else ?sn ! nat (int (length ?sn) + g - 1))
                           + interval)
                        (chord_value (harmonize_degree g ScaleType.MAJOR)))) [0, - 1, 22, 1])
                 = [95, 99, 102, 93, 97, 100, 60, 64, 67, 60, 64, 67]"
    unfolding len by (simp add: harmonize_outside_major expand_60 in_midi_range_def)
  ultimately have i: "\<exists>tr. create_chord_progression 60 ScaleType.MAJOR [0, - 1, 22, 1] 4 = Inr tr
          \<and> map pitch (track_notes tr) = [95, 99, 102, 93, 97, 100, 60, 64, 67, 60, 64, 67]"
    by simp
  from a b c lst nxt have abc: "chord_root ?sn 0 60 = Inr 95"
    "chord_root ?sn (- 1) 60 = Inr 93" "chord_root ?sn 22 60 = Inr 60"
    by simp_all
  from abc e f g h i m show ?thesis
    by (intro conjI)
qed

lemma py_index_mod:
  "xs \<noteq> [] \<Longrightarrow> py_index xs (k mod int (length xs)) = Inr (xs ! nat (k mod int (length xs)))"
  by (simp add: py_index_def)

lemma py_index_zero: "xs \<noteq> [] \<Longrightarrow> py_index xs 0 = Inr (xs ! 0)"
  by (simp add: py_index_def)

lemma sawtooth_program: "INSTRUMENTS_get ''synth_lead_sawtooth'' 81 = 81"
  by code_simp

lemma expansion_nonempty:
  "0 \<le> r \<Longrightarrow> r \<le> 127 \<Longrightarrow> get_scale_notes r st 3 \<noteq> []"
  using get_scale_notes_root [of r 3 st] by auto

lemma melody_loop_three:
  assumes "sn \<noteq> []"
  shows "melody_loop sn [(1, 1, 0), (0, 1, 0), (2, 1 / 2, 1 / 2)] [] 0 =
           Inr ([mk_Note (sn ! 0) 0 1 85,
                 mk_Note (sn ! nat (1 mod int (length sn)) + (1 div int (length sn)) * 12)
                   2 (1 / 2) 85], 3)"
  using assms py_index_mod [of sn 1]
  by (simp add: py_index_zero)

text \<open>
  C6. For every scale and every root pitch (an integer in \<open>[0,127]\<close>, for which the
  three-octave expansion is never empty), the melody builder run on the pattern
  \<open>[(1,1,0), (0,1,0), (2,0.5,0.5)]\<close> emits exactly two notes, at beats 0 and 2 (the
  element of degree 0 emits none and advances the cursor by 1), and ends with the
  cursor at 3 beats. The sums 1, 2 and 3 of this pattern are exact in binary floating
  point, so the cursor of the code takes the same values.
\<close>

theorem melody_pattern_two_notes:
  "(0 \<le> root' \<and> root' \<le> 127 \<longrightarrow> get_scale_notes root' scale_type 3 \<noteq> [])
   \<and> (get_scale_notes root' scale_type 3 \<noteq> [] \<longrightarrow>
        (let sn = get_scale_notes root' scale_type 3;
             n1 = mk_Note (sn ! 0) 0 1 85;
             n2 = mk_Note (sn ! nat (1 mod int (length sn)) + (1 div int (length sn)) * 12)
                    2 (1 / 2) 85
         in melody_loop sn [(1, 1, 0), (0, 1, 0), (2, 1 / 2, 1 / 2)] [] 0 = Inr ([n1, n2], 3)
            \<and> create_melody root' scale_type [(1, 1, 0), (0, 1, 0), (2, 1 / 2, 1 / 2)] start_octave
                = Inr \<lparr>name = ''Melody'', channel = 1, track_notes = [n1, n2], program = 81\<rparr>
            \<and> length [n1, n2] = 2))
   \<and> (0 \<le> root' \<and> root' \<le> 127 \<longrightarrow>
        (\<exists>ns tr. melody_loop (get_scale_notes root' scale_type 3)
                     [(1, 1, 0), (0, 1, 0), (2, 1 / 2, 1 / 2)] [] 0 = Inr (ns, 3)
           \<and> create_melody root' scale_type [(1, 1, 0), (0, 1, 0), (2, 1 / 2, 1 / 2)] start_octave
               = Inr tr
           \<and> track_notes tr = ns \<and> length ns = 2
           \<and> map start_time ns = [0, 2]))"
proof (intro conjI impI)
  assume "0 \<le> root' \<and> root' \<le> 127"
  then show "get_scale_notes root' scale_type 3 \<noteq> []"
    by (simp add: expansion_nonempty)
next
  assume "0 \<le> root' \<and> root' \<le> 127"
  then have ne: "get_scale_notes root' scale_type 3 \<noteq> []"
    by (simp add: expansion_nonempty)
  show "\<exists>ns tr. melody_loop (get_scale_notes root' scale_type 3)
                     [(1, 1, 0), (0, 1, 0), (2, 1 / 2, 1 / 2)] [] 0 = Inr (ns, 3)
           \<and> create_melody root' scale_type [(1, 1, 0), (0, 1, 0), (2, 1 / 2, 1 / 2)] start_octave
               = Inr tr
           \<and> track_notes tr = ns \<and> length ns = 2
           \<and> map start_time ns = [0, 2]"
    unfolding create_melody_def melody_loop_three [OF ne] sawtooth_program
    by (simp add: mk_Note_def)
next
  assume ne: "get_scale_notes root' scale_type 3 \<noteq> []"
  show "let sn = get_scale_notes root' scale_type 3;
             n1 = mk_Note (sn ! 0) 0 1 85;
             n2 = mk_Note (sn ! nat (1 mod int (length sn)) + (1 div int (length sn)) * 12)
                    2 (1 / 2) 85
         in melody_loop sn [(1, 1, 0), (0, 1, 0), (2, 1 / 2, 1 / 2)] [] 0 = Inr ([n1, n2], 3)
            \<and> create_melody root' scale_type [(1, 1, 0), (0, 1, 0), (2, 1 / 2, 1 / 2)] start_octave
                = Inr \<lparr>name = ''Melody'', channel = 1, track_notes = [n1, n2], program = 81\<rparr>
            \<and> length [n1, n2] = 2"
    unfolding Let_def create_melody_def melody_loop_three [OF ne] sawtooth_program
    by simp
qed

theorem melody_pattern_two_notes_witness:
  "(0::int) \<le> 60 \<and> (60::int) \<le> 127
   \<and> get_scale_notes 60 ScaleType.MAJOR 3 \<noteq> []
   \<and> melody_loop (get_scale_notes 60 ScaleType.MAJOR 3)
        [(1, 1, 0), (0, 1, 0), (2, 1 / 2, 1 / 2)] [] 0
        = Inr ([mk_Note 60 0 1 85, mk_Note 62 2 (1 / 2) 85], 3)
   \<and> create_melody 60 ScaleType.MAJOR [(1, 1, 0), (0, 1, 0), (2, 1 / 2, 1 / 2)] 5
        = Inr \<lparr>name = ''Melody'', channel = 1,
               track_notes = [mk_Note 60 0 1 85, mk_Note 62 2 (1 / 2) 85], program = 81\<rparr>"
proof -
  have h: "(0::int) \<le> 60 \<and> (60::int) \<le> 127"
    by simp
  note t = melody_pattern_two_notes [of 60 ScaleType.MAJOR 5]
  have ne: "get_scale_notes 60 ScaleType.MAJOR 3 \<noteq> []"
    using t h by blast
  have vals: "get_scale_notes 60 ScaleType.MAJOR 3 ! 0 = 60"
    "get_scale_notes 60 ScaleType.MAJOR 3 ! nat (1 mod int (length (get_scale_notes 60 ScaleType.MAJOR 3)))
       + (1 div int (length (get_scale_notes 60 ScaleType.MAJOR 3))) * 12 = 62"
    by (simp_all add: expand_60)
  from t ne have "let sn = get_scale_notes 60 ScaleType.MAJOR 3;
             n1 = mk_Note (sn ! 0) 0 1 85;
             n2 = mk_Note (sn ! nat (1 mod int (length sn)) + (1 div int (length sn)) * 12)
                    2 (1 / 2) 85
         in melody_loop sn [(1, 1, 0), (0, 1, 0), (2, 1 / 2, 1 / 2)] [] 0 = Inr ([n1, n2], 3)
            \<and> create_melody 60 ScaleType.MAJOR [(1, 1, 0), (0, 1, 0), (2, 1 / 2, 1 / 2)] 5
                = Inr \<lparr>name = ''Melody'', channel = 1, track_notes = [n1, n2], program = 81\<rparr>
            \<and> length [n1, n2] = 2"
    by blast
  then show ?thesis
    unfolding Let_def vals using h ne by blast
qed

text \<open>
  C9. The melody builder does not depend on \<open>start_octave\<close>: for every root, scale and
  pattern, any two values of the parameter give the same result, track or exception.
\<close>

theorem create_melody_start_octave:
  "create_melody root' scale_type pattern a = create_melody root' scale_type pattern b"
  by (simp add: create_melody_def)

theorem create_melody_start_octave_witness:
  "create_melody 60 ScaleType.MAJOR [(1, 1, 0)] 5 = create_melody 60 ScaleType.MAJOR [(1, 1, 0)] 2"
  using create_melody_start_octave [of 60 ScaleType.MAJOR "[(1, 1, 0)]" 5 2]
  by simp

section \<open>Properties of the composition loader\<close>

lemma note_name_to_midi_error: "note_name_to_midi nm octave = Inl e \<Longrightarrow> e = InvalidNoteName"
  by (simp add: note_name_to_midi_def Let_def split: if_splits)

lemma scale_FOO: "ScaleType_getitem ''FOO'' = None"
  by code_simp

lemma key_H: "note_name_to_midi ''H'' 4 = Inl InvalidNoteName"
  by code_simp

lemma key_A: "note_name_to_midi ''A'' 4 = Inr 69"
  by code_simp

text \<open>
  C7 (as amended). When the scale name of a specification does not resolve, the loader
  fails before any track is built: the composer it holds at the failure has no tracks,
  no composition is returned, and the track descriptors are never read (replacing them
  changes nothing). The failure is \<open>UnknownScale\<close> when the key resolves to a pitch; the
  key is resolved first, so an invalid key name makes it \<open>InvalidNoteName\<close> instead.
\<close>

theorem unknown_scale_fails_before_tracks:
  "ScaleType_getitem (get_or (data_scale data) ''MAJOR'') = None
   \<Longrightarrow> (\<exists>e. create_from_json data =
              Inl (e, \<lparr>tempo = get_or (data_tempo data) 120,
                        time_signature = get_or (data_time_signature data) [4, 4],
                        tracks = []\<rparr>)
            \<and> (e = UnknownScale \<or> e = InvalidNoteName))
       \<and> ((\<exists>r. note_name_to_midi (get_or (data_key data) ''C'') (get_or (data_octave data) 4)
                  = Inr r)
            \<longrightarrow> create_from_json data =
                  Inl (UnknownScale, \<lparr>tempo = get_or (data_tempo data) 120,
                        time_signature = get_or (data_time_signature data) [4, 4],
                        tracks = []\<rparr>))
       \<and> (note_name_to_midi (get_or (data_key data) ''C'') (get_or (data_octave data) 4)
              = Inl InvalidNoteName
            \<longrightarrow> create_from_json data =
                  Inl (InvalidNoteName, \<lparr>tempo = get_or (data_tempo data) 120,
                        time_signature = get_or (data_time_signature data) [4, 4],
                        tracks = []\<rparr>))
       \<and> create_from_json (data\<lparr>data_tracks := ts\<rparr>) = create_from_json data"
proof -
  assume unknown: "ScaleType_getitem (get_or (data_scale data) ''MAJOR'') = None"
  show ?thesis
  proof (cases "note_name_to_midi (get_or (data_key data) ''C'') (get_or (data_octave data) 4)")
    case (Inl e)
    then have "e = InvalidNoteName"
      by (rule note_name_to_midi_error)
    with Inl unknown show ?thesis
      by (simp add: create_from_json_def Let_def)
  next
    case (Inr r)
    with unknown show ?thesis
      by (simp add: create_from_json_def Let_def)
  qed
qed

theorem unknown_scale_invalid_key_counterexample:
  "ScaleType_getitem ''FOO'' = None
   \<and> create_from_json
        \<lparr>data_tempo = None, data_time_signature = None, data_key = Some ''H'',
         data_octave = None, data_scale = Some ''FOO'', data_tracks = None\<rparr>
       = Inl (InvalidNoteName, \<lparr>tempo = 120, time_signature = [4, 4], tracks = []\<rparr>)"
  by (simp add: create_from_json_def Let_def get_or_def scale_FOO key_H)

theorem unknown_scale_fails_before_tracks_witness:
  "ScaleType_getitem ''FOO'' = None
   \<and> create_from_json
        \<lparr>data_tempo = Some 90, data_time_signature = None, data_key = Some ''A'',
         data_octave = None, data_scale = Some ''FOO'',
         data_tracks = Some [MelodySpec None None None]\<rparr>
       = Inl (UnknownScale, \<lparr>tempo = 90, time_signature = [4, 4], tracks = []\<rparr>)"
  using unknown_scale_fails_before_tracks
    [of "\<lparr>data_tempo = Some 90, data_time_signature = None, data_key = Some ''A'',
         data_octave = None, data_scale = Some ''FOO'',
         data_tracks = Some [MelodySpec None None None]\<rparr>" None]
  by (simp add: get_or_def scale_FOO key_A)

end
